theory Spec2Isabelle
  imports
    Complex_Main
    "HOL-Library.Multiset"
    "HOL-Library.Sublist"
    "HOL-Library.Char_ord"
    "HOL-Library.Log_Nat"
    "HOL-Library.List_Lexorder"
    "HOL-Library.Product_Lexorder"
begin

section \<open>Data model\<close>

text \<open>
  The dashboard (\<^verbatim>\<open>new_app.py\<close>) works on a pandas data frame read from a CSV file.
  A cell of a frame is a missing value (\<^verbatim>\<open>NaN\<close>), a number, a text or a boolean.
  A number cell holds the value of a machine number as a rational: a whole number in a
  column of dtype int64, the value of a finite float64 in a column of dtype float64 (and
  in a column of dtype object, where a number stands beside texts).
  Arithmetic on numbers is the machine's (see below); the values \<^verbatim>\<open>inf\<close> and \<^verbatim>\<open>-inf\<close>
  are outside this model.
  Frames that \<^verbatim>\<open>read_csv\<close> hands to \<^verbatim>\<open>load_csv\<close> hold numbers, texts and missing
  values; \<open>Bool\<close> is what \<^verbatim>\<open>load_csv\<close> writes into \<^verbatim>\<open>IsDNF\<close>.
  Texts are byte strings (UTF-8), as \<open>string\<close> is in HOL.
\<close>

datatype cell = NaN | Num rat | Str string | Bool bool

text \<open>
  The dtype of a column. \<^verbatim>\<open>read_csv\<close> gives int64 to a column of whole numbers without
  a missing value, float64 to any other column of numbers, and object to a column
  that holds a text. \<open>Boolean\<close> is the dtype of \<^verbatim>\<open>IsDNF\<close>. The dtype uint64, which
  \<^verbatim>\<open>read_csv\<close> gives to a column of whole numbers that reach \<^verbatim>\<open>2^63\<close>, and source columns
  of booleans are outside this model.
\<close>

datatype dtype = Int64 | Float64 | Object | Boolean

text \<open>
  A row gives a cell for every column name; the frame says which names are columns.
  The value of a row at a name that is not a column is never read by the code:
  every \<^verbatim>\<open>df[c]\<close> of \<^verbatim>\<open>load_csv\<close> is guarded by \<^verbatim>\<open>c in df.columns\<close> or reads a column
  written before.
\<close>

type_synonym row = "string \<Rightarrow> cell"

record frame =
  columns :: "string list"
  dtypes :: "string \<Rightarrow> dtype"
  rows :: "row list"

datatype error = AttributeError | KeyError string

definition has_col :: "frame \<Rightarrow> string \<Rightarrow> bool" where
  "has_col df c = (c \<in> set (columns df))"

text \<open>
  \<^verbatim>\<open>df[c] = f(df)\<close> for a row-wise \<open>f\<close> with values of dtype \<open>dt\<close>: the column is
  overwritten, or appended when new.
\<close>

definition assign :: "string \<Rightarrow> dtype \<Rightarrow> (row \<Rightarrow> cell) \<Rightarrow> frame \<Rightarrow> frame" where
  "assign c dt f df =
     \<lparr>columns = (if c \<in> set (columns df) then columns df else columns df @ [c]),
      dtypes = (dtypes df)(c := dt),
      rows = map (\<lambda>r. r(c := f r)) (rows df)\<rparr>"

text \<open>A row given by its cells, every other name missing (for concrete tables).\<close>

definition mk_row :: "(string \<times> cell) list \<Rightarrow> row" where
  "mk_row kvs = (\<lambda>c. case map_of kvs c of Some v \<Rightarrow> v | None \<Rightarrow> NaN)"

text \<open>The dtypes of a table given by a list, every other name object.\<close>

definition mk_dtypes :: "(string \<times> dtype) list \<Rightarrow> string \<Rightarrow> dtype" where
  "mk_dtypes kvs = (\<lambda>c. case map_of kvs c of Some d \<Rightarrow> d | None \<Rightarrow> Object)"

section \<open>Machine numbers\<close>

text \<open>
  int64 arithmetic wraps around: the result is the exact result modulo \<^verbatim>\<open>2^64\<close>, taken
  between \<^verbatim>\<open>-2^63\<close> and \<^verbatim>\<open>2^63 - 1\<close>.
\<close>

definition wrap64 :: "int \<Rightarrow> int" where
  "wrap64 n = (n + 2 ^ 63) mod 2 ^ 64 - 2 ^ 63"

text \<open>
  float64 arithmetic gives the exact result rounded to the nearest float64, a tie going
  to the even significand (IEEE 754, binary64). A float64 is a whole multiple of a
  power of two, \<^verbatim>\<open>m * 2^e\<close> with \<^verbatim>\<open>|m| < 2^53\<close> and \<^verbatim>\<open>e >= -1074\<close>. A result beyond the
  largest float64, which the machine gives as \<^verbatim>\<open>inf\<close>, is outside this model:
  \<open>round64\<close> has no upper limit.
\<close>

definition round_half_even :: "rat \<Rightarrow> int" where
  "round_half_even x =
     (let f = \<lfloor>x\<rfloor>; d = x - of_int f
      in if d < 1 / 2 then f else if 1 / 2 < d then f + 1 else if even f then f else f + 1)"

text \<open>The binary exponent \<open>e\<close> of a positive number \<open>q\<close>: \<^verbatim>\<open>2^e <= q < 2^(e+1)\<close>.\<close>

definition ilog2 :: "rat \<Rightarrow> int" where
  "ilog2 q = (if 1 \<le> q then bitlen \<lfloor>q\<rfloor> - 1 else - bitlen (\<lceil>1 / q\<rceil> - 1))"

definition round64 :: "rat \<Rightarrow> rat" where
  "round64 q =
     (if q = 0 then 0
      else let e = max (ilog2 \<bar>q\<bar> - 52) (- 1074)
           in of_int (round_half_even (q / 2 powi e)) * 2 powi e)"

text \<open>The largest float64.\<close>

definition max_float64 :: rat where
  "max_float64 = (2 ^ 53 - 1) * 2 ^ 971"

text \<open>A value of a column of dtype \<open>dt\<close>, converted to float64.\<close>

definition as_float64 :: "dtype \<Rightarrow> rat \<Rightarrow> rat" where
  "as_float64 dt x = (if dt = Int64 then round64 x else x)"

text \<open>
  The dtype that numpy gives to an array built from arrays of two dtypes: int64 with
  float64 is float64, anything with object is object.
\<close>

fun result_type :: "dtype \<Rightarrow> dtype \<Rightarrow> dtype" where
  "result_type Object _ = Object"
| "result_type _ Object = Object"
| "result_type Float64 _ = Float64"
| "result_type _ Float64 = Float64"
| "result_type Int64 _ = Int64"
| "result_type _ Int64 = Int64"
| "result_type Boolean Boolean = Boolean"

text \<open>
  A cell of a column of dtype \<open>src\<close>, converted to dtype \<open>dst\<close>: an int64 that goes to
  float64 is rounded, every other cell keeps its value.
\<close>

fun astype :: "dtype \<Rightarrow> dtype \<Rightarrow> cell \<Rightarrow> cell" where
  "astype src dst (Num x) = (if dst = Float64 then Num (as_float64 src x) else Num x)"
| "astype src dst c = c"

section \<open>The pandas operations that \<^verbatim>\<open>load_csv\<close> uses\<close>

text \<open>
  The operations are those of pandas 1.x and 2.x, for which the dashboard was written;
  there \<^verbatim>\<open>astype(str)\<close> applies Python's \<^verbatim>\<open>str\<close> to every element, also to a missing one.
\<close>

definition isna :: "cell \<Rightarrow> bool" where
  "isna c = (c = NaN)"

definition notna :: "cell \<Rightarrow> bool" where
  "notna c = (c \<noteq> NaN)"

text \<open>
  \<^verbatim>\<open>pd.to_numeric(..., errors="coerce")\<close> on one element. How pandas reads a text as a
  number is the parameter \<open>parse\<close>; a text it cannot read becomes missing. A boolean
  counts as 1 or 0. An int64 column stays int64; every other column becomes float64
  (a column is text only when one of its cells is not a number, and that cell becomes
  missing).
\<close>

definition numeric_dtype :: "dtype \<Rightarrow> dtype" where
  "numeric_dtype dt = (if dt = Int64 then Int64 else Float64)"

fun to_numeric :: "(string \<Rightarrow> rat option) \<Rightarrow> cell \<Rightarrow> cell" where
  "to_numeric parse NaN = NaN"
| "to_numeric parse (Num x) = Num x"
| "to_numeric parse (Str s) = (case parse s of Some x \<Rightarrow> Num x | None \<Rightarrow> NaN)"
| "to_numeric parse (Bool b) = Num (if b then 1 else 0)"

fun fillna :: "rat \<Rightarrow> cell \<Rightarrow> cell" where
  "fillna v NaN = Num v"
| "fillna v c = c"

text \<open>
  \<^verbatim>\<open>astype(str)\<close> on one element. How Python prints a number is the parameter \<open>fmt\<close>.
\<close>

fun astype_str :: "(rat \<Rightarrow> string) \<Rightarrow> cell \<Rightarrow> string" where
  "astype_str fmt NaN = ''nan''"
| "astype_str fmt (Num x) = fmt x"
| "astype_str fmt (Str s) = s"
| "astype_str fmt (Bool b) = (if b then ''True'' else ''False'')"

text \<open>
  \<^verbatim>\<open>str.lower()\<close> on the ASCII letters. Python also lowers letters beyond ASCII; of those
  only U+212A and U+0130 give an ASCII letter (k and i), and neither occurs in a token
  that \<^verbatim>\<open>load_csv\<close> looks for.
\<close>

definition lower_char :: "char \<Rightarrow> char" where
  "lower_char c =
     (case map_of (zip ''ABCDEFGHIJKLMNOPQRSTUVWXYZ'' ''abcdefghijklmnopqrstuvwxyz'') c of
        Some d \<Rightarrow> d
      | None \<Rightarrow> c)"

definition str_lower :: "string \<Rightarrow> string" where
  "str_lower s = map lower_char s"

text \<open>
  \<^verbatim>\<open>str.strip()\<close> removes white space at both ends. White space is here the ASCII
  part of Python's \<^verbatim>\<open>str.isspace\<close> (tab, line feed, vertical tab, form feed, carriage
  return, the separators 28 to 31, space); the white space beyond ASCII, which Python
  strips as well, is several bytes in UTF-8 and is left in place by this model.
\<close>

definition is_space :: "char \<Rightarrow> bool" where
  "is_space c = (let n = (of_char c :: nat) in (9 \<le> n \<and> n \<le> 13) \<or> (28 \<le> n \<and> n \<le> 32))"

definition str_strip :: "string \<Rightarrow> string" where
  "str_strip s = rev (dropWhile is_space (rev (dropWhile is_space s)))"

text \<open>
  \<^verbatim>\<open>str.contains(pat, regex=True)\<close> for a pattern that is an alternation of literal
  tokens: \<^verbatim>\<open>re.search\<close> succeeds when one of the tokens occurs somewhere in the text.
\<close>

fun occurs_in :: "string \<Rightarrow> string \<Rightarrow> bool" where
  "occurs_in t [] = (t = [])"
| "occurs_in t (c # cs) = (prefix t (c # cs) \<or> occurs_in t cs)"

definition str_contains :: "string list \<Rightarrow> string \<Rightarrow> bool" where
  "str_contains toks s = list_ex (\<lambda>t. occurs_in t s) toks"

text \<open>The tokens of the pattern \<^verbatim>\<open>"ret|dnf|dsq|dns|dnc"\<close>.\<close>

definition dnf_tokens :: "string list" where
  "dnf_tokens = [''ret'', ''dnf'', ''dsq'', ''dns'', ''dnc'']"

text \<open>
  Subtraction of a column of dtype \<open>da\<close> and a column of dtype \<open>db\<close>, element by
  element, missing if an operand is: two int64 columns are subtracted in int64, which
  wraps around; otherwise both values are taken to float64 and the difference is
  rounded.
\<close>

fun sub_cell :: "dtype \<Rightarrow> dtype \<Rightarrow> cell \<Rightarrow> cell \<Rightarrow> cell" where
  "sub_cell da db (Num a) (Num b) =
     (if da = Int64 \<and> db = Int64 then Num (of_int (wrap64 (\<lfloor>a\<rfloor> - \<lfloor>b\<rfloor>)))
      else Num (round64 (as_float64 da a - as_float64 db b)))"
| "sub_cell da db _ _ = NaN"

definition sub_dtype :: "dtype \<Rightarrow> dtype \<Rightarrow> dtype" where
  "sub_dtype da db = (if da = Int64 \<and> db = Int64 then Int64 else Float64)"

section \<open>\<^verbatim>\<open>load_csv\<close>\<close>

text \<open>Line 91: the position column is \<^verbatim>\<open>Position\<close>, else \<^verbatim>\<open>Pos.\<close>, else none.\<close>

definition pos_col :: "frame \<Rightarrow> string option" where
  "pos_col df =
     (if has_col df ''Position'' then Some ''Position''
      else if has_col df ''Pos.'' then Some ''Pos.'' else None)"

text \<open>
  Lines 93 to 104: \<^verbatim>\<open>np.where(a.notna(), a, b)\<close> when both columns exist. \<^verbatim>\<open>np.where\<close>
  builds one array from the two columns, so both are converted to their common dtype.
\<close>

definition resolve_driver_number :: "frame \<Rightarrow> frame" where
  "resolve_driver_number df =
     (if has_col df ''DriverNumber'' \<and> has_col df ''DriverNumber.1'' then
        (let da = dtypes df ''DriverNumber''; db = dtypes df ''DriverNumber.1'';
             dt = result_type da db
         in assign ''DriverNumber_clean'' dt
              (\<lambda>r. if notna (r ''DriverNumber'') then astype da dt (r ''DriverNumber'')
                   else astype db dt (r ''DriverNumber.1'')) df)
      else if has_col df ''DriverNumber'' then
        assign ''DriverNumber_clean'' (dtypes df ''DriverNumber'') (\<lambda>r. r ''DriverNumber'') df
      else if has_col df ''DriverNumber.1'' then
        assign ''DriverNumber_clean'' (dtypes df ''DriverNumber.1'') (\<lambda>r. r ''DriverNumber.1'') df
      else assign ''DriverNumber_clean'' Float64 (\<lambda>r. NaN) df)"

text \<open>Lines 107 to 110.\<close>

definition set_pos_num :: "(string \<Rightarrow> rat option) \<Rightarrow> string option \<Rightarrow> frame \<Rightarrow> frame" where
  "set_pos_num parse pc df =
     (case pc of
        Some c \<Rightarrow> assign ''Pos_num'' (numeric_dtype (dtypes df c)) (\<lambda>r. to_numeric parse (r c)) df
      | None \<Rightarrow> assign ''Pos_num'' Float64 (\<lambda>r. NaN) df)"

text \<open>
  Line 112: \<^verbatim>\<open>df.get("Grid")\<close> is \<^verbatim>\<open>None\<close> when the column is absent, \<^verbatim>\<open>to_numeric\<close>
  of \<^verbatim>\<open>None\<close> is the scalar \<^verbatim>\<open>nan\<close>, and assigning it fills the column with it.
\<close>

definition set_grid_num :: "(string \<Rightarrow> rat option) \<Rightarrow> frame \<Rightarrow> frame" where
  "set_grid_num parse df =
     (if has_col df ''Grid'' then
        assign ''Grid_num'' (numeric_dtype (dtypes df ''Grid'')) (\<lambda>r. to_numeric parse (r ''Grid'')) df
      else assign ''Grid_num'' Float64 (\<lambda>r. NaN) df)"

text \<open>
  Line 113: with the column absent, \<^verbatim>\<open>to_numeric(None)\<close> is a scalar, which has no
  \<^verbatim>\<open>fillna\<close>: the call raises \<^verbatim>\<open>AttributeError\<close>.
\<close>

definition fill_points :: "(string \<Rightarrow> rat option) \<Rightarrow> frame \<Rightarrow> frame" where
  "fill_points parse df =
     assign ''Points'' (numeric_dtype (dtypes df ''Points''))
       (\<lambda>r. fillna 0 (to_numeric parse (r ''Points''))) df"

definition set_points :: "(string \<Rightarrow> rat option) \<Rightarrow> frame \<Rightarrow> error + frame" where
  "set_points parse df =
     (if has_col df ''Points'' then Inr (fill_points parse df) else Inl AttributeError)"

text \<open>Lines 115 to 118.\<close>

definition numeric_if_present :: "(string \<Rightarrow> rat option) \<Rightarrow> string \<Rightarrow> frame \<Rightarrow> frame" where
  "numeric_if_present parse c df =
     (if has_col df c then assign c (numeric_dtype (dtypes df c)) (\<lambda>r. to_numeric parse (r c)) df
      else df)"

text \<open>Lines 120 to 125.\<close>

definition set_is_dnf :: "(rat \<Rightarrow> string) \<Rightarrow> frame \<Rightarrow> frame" where
  "set_is_dnf fmt df =
     (if has_col df ''Time/Retired'' then
        assign ''IsDNF'' Boolean
          (\<lambda>r. Bool (isna (r ''Pos_num'') \<or>
                     str_contains dnf_tokens (str_lower (astype_str fmt (r ''Time/Retired''))))) df
      else assign ''IsDNF'' Boolean (\<lambda>r. Bool (isna (r ''Pos_num''))) df)"

text \<open>Line 127.\<close>

definition set_pos_gain :: "frame \<Rightarrow> frame" where
  "set_pos_gain df =
     (let dg = dtypes df ''Grid_num''; dp = dtypes df ''Pos_num''
      in assign ''PosGain'' (sub_dtype dg dp)
           (\<lambda>r. sub_cell dg dp (r ''Grid_num'') (r ''Pos_num'')) df)"

text \<open>Lines 129 to 131, one round of the loop.\<close>

definition strip_text :: "(rat \<Rightarrow> string) \<Rightarrow> string \<Rightarrow> frame \<Rightarrow> frame" where
  "strip_text fmt c df =
     (if has_col df c then assign c Object (\<lambda>r. Str (str_strip (astype_str fmt (r c)))) df
      else df)"

definition load_csv :: "(string \<Rightarrow> rat option) \<Rightarrow> (rat \<Rightarrow> string) \<Rightarrow> frame \<Rightarrow> error + frame" where
  "load_csv parse fmt df =
     (let pc = pos_col df;
          df1 = resolve_driver_number df;
          df2 = set_pos_num parse pc df1;
          df3 = set_grid_num parse df2
      in case set_points parse df3 of
           Inl e \<Rightarrow> Inl e
         | Inr df4 \<Rightarrow>
             (let df5 = numeric_if_present parse ''NPitstops'' df4;
                  df6 = numeric_if_present parse ''MedianPitStopDuration'' df5;
                  df7 = set_is_dnf fmt df6;
                  df8 = set_pos_gain df7
              in Inr (fold (strip_text fmt) [''Driver'', ''Constructor''] df8)))"

text \<open>\<^verbatim>\<open>df[c].tolist()\<close>: the cells of a column, from the first row to the last.\<close>

definition column_of :: "string \<Rightarrow> frame \<Rightarrow> cell list" where
  "column_of c df = map (\<lambda>r. r c) (rows df)"

text \<open>The table that \<^verbatim>\<open>load_csv\<close> returns, as the chain of its stages.\<close>

definition loaded :: "(string \<Rightarrow> rat option) \<Rightarrow> (rat \<Rightarrow> string) \<Rightarrow> frame \<Rightarrow> frame" where
  "loaded parse fmt df =
     strip_text fmt ''Constructor'' (strip_text fmt ''Driver'' (set_pos_gain (set_is_dnf fmt
       (numeric_if_present parse ''MedianPitStopDuration'' (numeric_if_present parse ''NPitstops''
         (fill_points parse
           (set_grid_num parse (set_pos_num parse (pos_col df) (resolve_driver_number df)))))))))"


section \<open>The filters of the sidebar\<close>

record selection =
  sel_seasons :: "cell list"
  sel_races :: "cell list"
  sel_teams :: "cell list"
  sel_drivers :: "cell list"
  include_dnfs :: bool
  only_points :: bool

text \<open>\<^verbatim>\<open>dff[mask]\<close>: the rows whose mask is true, the columns unchanged.\<close>

definition keep_rows :: "(row \<Rightarrow> bool) \<Rightarrow> frame \<Rightarrow> frame" where
  "keep_rows p df = df\<lparr>rows := filter p (rows df)\<rparr>"

text \<open>\<^verbatim>\<open>dff[dff[c].isin(vals)]\<close>; \<^verbatim>\<open>dff[c]\<close> raises \<^verbatim>\<open>KeyError\<close> when \<open>c\<close> is no column.\<close>

definition isin_filter :: "string \<Rightarrow> cell list \<Rightarrow> frame \<Rightarrow> error + frame" where
  "isin_filter c vals df =
     (if has_col df c then Inr (keep_rows (\<lambda>r. r c \<in> set vals) df) else Inl (KeyError c))"

text \<open>\<^verbatim>\<open>dff["Points"] > 0\<close> on one element: a comparison with a missing value is false.\<close>

fun gt_zero :: "cell \<Rightarrow> bool" where
  "gt_zero (Num x) = (0 < x)"
| "gt_zero (Bool b) = b"
| "gt_zero _ = False"

text \<open>The six statements of lines 172 to 177, one constructor each.\<close>

datatype step = BySeason | ByRace | ByTeam | ByDriver | ByDNF | ByPoints

fun apply_step :: "selection \<Rightarrow> step \<Rightarrow> frame \<Rightarrow> error + frame" where
  "apply_step sel BySeason dff =
     (if sel_seasons sel \<noteq> [] then isin_filter ''Season'' (sel_seasons sel) dff else Inr dff)"
| "apply_step sel ByRace dff =
     (if sel_races sel \<noteq> [] then isin_filter ''RaceNumber'' (sel_races sel) dff else Inr dff)"
| "apply_step sel ByTeam dff =
     (if sel_teams sel \<noteq> [] \<and> has_col dff ''Constructor''
      then isin_filter ''Constructor'' (sel_teams sel) dff else Inr dff)"
| "apply_step sel ByDriver dff =
     (if sel_drivers sel \<noteq> [] \<and> has_col dff ''Driver''
      then isin_filter ''Driver'' (sel_drivers sel) dff else Inr dff)"
| "apply_step sel ByDNF dff =
     (if \<not> include_dnfs sel then
        (if has_col dff ''IsDNF'' then Inr (keep_rows (\<lambda>r. r ''IsDNF'' = Bool False) dff)
         else Inl (KeyError ''IsDNF''))
      else Inr dff)"
| "apply_step sel ByPoints dff =
     (if only_points sel then
        (if has_col dff ''Points'' then Inr (keep_rows (\<lambda>r. gt_zero (r ''Points'')) dff)
         else Inl (KeyError ''Points''))
      else Inr dff)"

text \<open>Statements run one after the other; the first exception ends the run.\<close>

fun run_steps :: "selection \<Rightarrow> step list \<Rightarrow> frame \<Rightarrow> error + frame" where
  "run_steps sel [] dff = Inr dff"
| "run_steps sel (s # ss) dff =
     (case apply_step sel s dff of Inl e \<Rightarrow> Inl e | Inr d \<Rightarrow> run_steps sel ss d)"

text \<open>Lines 171 to 177, in the order of the source.\<close>

definition dff_of :: "selection \<Rightarrow> frame \<Rightarrow> error + frame" where
  "dff_of sel df = run_steps sel [BySeason, ByRace, ByTeam, ByDriver, ByDNF, ByPoints] df"

text \<open>The row-level test that a statement applies, with its guard.\<close>

fun step_pred :: "selection \<Rightarrow> frame \<Rightarrow> step \<Rightarrow> row \<Rightarrow> bool" where
  "step_pred sel df BySeason r =
     (sel_seasons sel \<noteq> [] \<longrightarrow> r ''Season'' \<in> set (sel_seasons sel))"
| "step_pred sel df ByRace r =
     (sel_races sel \<noteq> [] \<longrightarrow> r ''RaceNumber'' \<in> set (sel_races sel))"
| "step_pred sel df ByTeam r =
     (sel_teams sel \<noteq> [] \<and> has_col df ''Constructor''
        \<longrightarrow> r ''Constructor'' \<in> set (sel_teams sel))"
| "step_pred sel df ByDriver r =
     (sel_drivers sel \<noteq> [] \<and> has_col df ''Driver''
        \<longrightarrow> r ''Driver'' \<in> set (sel_drivers sel))"
| "step_pred sel df ByDNF r = (\<not> include_dnfs sel \<longrightarrow> r ''IsDNF'' = Bool False)"
| "step_pred sel df ByPoints r = (only_points sel \<longrightarrow> gt_zero (r ''Points''))"

text \<open>
  The filter as the specification words it: one row-level predicate, the conjunction of
  the predicates of the options that are switched on.
\<close>

definition passes_all :: "selection \<Rightarrow> frame \<Rightarrow> row \<Rightarrow> bool" where
  "passes_all sel df r =
     ((sel_seasons sel \<noteq> [] \<longrightarrow> r ''Season'' \<in> set (sel_seasons sel)) \<and>
      (sel_races sel \<noteq> [] \<longrightarrow> r ''RaceNumber'' \<in> set (sel_races sel)) \<and>
      (sel_teams sel \<noteq> [] \<and> has_col df ''Constructor''
         \<longrightarrow> r ''Constructor'' \<in> set (sel_teams sel)) \<and>
      (sel_drivers sel \<noteq> [] \<and> has_col df ''Driver''
         \<longrightarrow> r ''Driver'' \<in> set (sel_drivers sel)) \<and>
      (\<not> include_dnfs sel \<longrightarrow> r ''IsDNF'' = Bool False) \<and>
      (only_points sel \<longrightarrow> gt_zero (r ''Points'')))"

section \<open>Aggregates\<close>

text \<open>
  The numbers that a sum over a column adds: a missing value is skipped
  (\<^verbatim>\<open>skipna\<close>), a boolean counts as 1 or 0.
\<close>

fun cell_value :: "cell \<Rightarrow> rat option" where
  "cell_value (Num x) = Some x"
| "cell_value (Bool b) = Some (if b then 1 else 0)"
| "cell_value _ = None"

definition values_of :: "cell list \<Rightarrow> rat list" where
  "values_of cs = List.map_filter cell_value cs"

text \<open>The sum of int64 numbers: the exact sum, wrapped around.\<close>

definition int64_sum :: "rat list \<Rightarrow> rat" where
  "int64_sum xs = of_int (wrap64 (sum_list (map floor xs)))"

text \<open>
  A sum over numbers of dtype \<open>dt\<close>. The sum of float64 numbers is the parameter
  \<open>fsum\<close>: every float64 addition rounds, so the result depends on the order and the
  method of the routine that adds, and pandas has several (\<^verbatim>\<open>Series.sum\<close> adds in
  blocks, the sums of \<^verbatim>\<open>groupby\<close> carry a compensation term along). The functions
  below take the routine they use as an argument.
\<close>

definition machine_sum :: "(rat list \<Rightarrow> rat) \<Rightarrow> dtype \<Rightarrow> rat list \<Rightarrow> rat" where
  "machine_sum fsum dt xs = (if dt = Int64 then int64_sum xs else fsum xs)"

text \<open>Line 184: \<^verbatim>\<open>dff["Points"].sum()\<close>, with the routine of \<^verbatim>\<open>Series.sum\<close>.\<close>

definition column_sum :: "(rat list \<Rightarrow> rat) \<Rightarrow> string \<Rightarrow> frame \<Rightarrow> rat" where
  "column_sum ssum c df = machine_sum ssum (dtypes df c) (values_of (column_of c df))"

text \<open>
  The order in which \<^verbatim>\<open>groupby\<close> (with its default \<^verbatim>\<open>sort=True\<close>) and \<^verbatim>\<open>sort_values\<close>
  arrange keys: numbers by value, texts by code point (which is the byte order of
  UTF-8); in a column that mixes them, numbers come before texts.
\<close>

fun cell_rank :: "cell \<Rightarrow> nat \<times> rat \<times> string" where
  "cell_rank (Num x) = (0, x, [])"
| "cell_rank (Str s) = (1, 0, s)"
| "cell_rank NaN = (2, 0, [])"
| "cell_rank (Bool b) = (3, if b then 1 else 0, [])"

text \<open>
  \<^verbatim>\<open>groupby(keys, as_index=False)[v].sum()\<close> on the list of (key, value) of the rows:
  a row with a missing key has no group (\<^verbatim>\<open>dropna=True\<close>), written \<open>None\<close> here;
  one result row per distinct key, in ascending key order; \<open>tot\<close> adds the values of
  a group, taken in the order of the rows.
\<close>

definition group_sum ::
  "('k \<Rightarrow> 'r::linorder) \<Rightarrow> (rat list \<Rightarrow> rat) \<Rightarrow> ('k option \<times> cell) list \<Rightarrow> ('k \<times> rat) list" where
  "group_sum rank tot kvs =
     map (\<lambda>k. (k, tot (values_of (map snd (filter (\<lambda>kv. fst kv = Some k) kvs)))))
       (sort_key rank (remdups (List.map_filter fst kvs)))"

text \<open>The key of a row for \<^verbatim>\<open>groupby(c)\<close>: none when the cell is missing.\<close>

definition key1 :: "string \<Rightarrow> row \<Rightarrow> cell option" where
  "key1 c r = (if notna (r c) then Some (r c) else None)"

text \<open>
  \<^verbatim>\<open>df.groupby(c, as_index=False)[v].sum()\<close>, with the float64 routine \<open>gsum\<close> of
  \<^verbatim>\<open>groupby\<close>; a name that is no column raises \<^verbatim>\<open>KeyError\<close>.
\<close>

definition groupby_sum ::
  "(rat list \<Rightarrow> rat) \<Rightarrow> string \<Rightarrow> string \<Rightarrow> frame \<Rightarrow> error + (cell \<times> rat) list" where
  "groupby_sum gsum c v df =
     (if \<not> has_col df c then Inl (KeyError c)
      else if \<not> has_col df v then Inl (KeyError v)
      else Inr (group_sum cell_rank (machine_sum gsum (dtypes df v))
                  (map (\<lambda>r. (key1 c r, r v)) (rows df))))"

text \<open>
  \<^verbatim>\<open>sort_values(by, ascending=False)\<close> with the default \<^verbatim>\<open>kind="quicksort"\<close>: the result
  has the rows of the argument in descending order of the value. The sort is not
  stable, and which of the descending arrangements comes out is up to numpy; every
  one of them is a possible result here.
\<close>

definition is_sort_desc :: "('a \<Rightarrow> rat) \<Rightarrow> 'a list \<Rightarrow> 'a list \<Rightarrow> bool" where
  "is_sort_desc f xs ys = (mset ys = mset xs \<and> sorted_wrt (\<lambda>a b. f b \<le> f a) ys)"

text \<open>
  Lines 202 to 207, before and after \<^verbatim>\<open>head(20)\<close>: the set of the possible results,
  one for every arrangement that the sort may give.
\<close>

definition by_driver_full_results ::
  "(rat list \<Rightarrow> rat) \<Rightarrow> frame \<Rightarrow> (error + (cell \<times> rat) list) set" where
  "by_driver_full_results gsum dff =
     (case groupby_sum gsum ''Driver'' ''Points'' dff of
        Inl e \<Rightarrow> {Inl e}
      | Inr g \<Rightarrow> Inr ` {ys. is_sort_desc snd g ys})"









section \<open>Points that the machine adds exactly\<close>

text \<open>
  Points as the races award them are whole or half, and none is negative. An int64
  column holds whole numbers, and its sums are exact below \<^verbatim>\<open>2^63\<close>. In a float64
  column every whole or half number below \<^verbatim>\<open>2^52\<close> is a float64, so an addition of two
  of them with a result below \<^verbatim>\<open>2^52\<close> does not round.
\<close>

definition in_grid :: "dtype \<Rightarrow> rat \<Rightarrow> bool" where
  "in_grid dt x =
     (0 \<le> x \<and> (if dt = Int64 then of_int \<lfloor>x\<rfloor> = x else of_int \<lfloor>2 * x\<rfloor> = 2 * x))"

definition sum_limit :: "dtype \<Rightarrow> rat" where
  "sum_limit dt = (if dt = Int64 then 2 ^ 63 else 2 ^ 52)"

definition points_in_range :: "dtype \<Rightarrow> rat list \<Rightarrow> bool" where
  "points_in_range dt xs = (list_all (in_grid dt) xs \<and> sum_list xs < sum_limit dt)"

text \<open>
  A float64 sum routine that is exact on such a list. A routine that adds the numbers
  of the list to one another, in whatever order and with whatever compensation, is:
  none of its additions rounds.
\<close>

definition exact_sums :: "(rat list \<Rightarrow> rat) \<Rightarrow> bool" where
  "exact_sums fsum =
     (\<forall>xs. points_in_range Float64 xs \<longrightarrow> fsum xs = sum_list xs)"

section \<open>Example tables\<close>

text \<open>
  Instances of the parameters for the examples below: a reader and a printer of
  numbers given by finite tables, and the addition of float64 numbers from left to
  right, every step rounded, which is what the routines of pandas come to on the
  short columns of the examples.
\<close>

definition parse_example :: "string \<Rightarrow> rat option" where
  "parse_example = map_of [(''1'', 1), (''19'', 19), (''25'', 25), (''44'', 44)]"

definition fmt_example :: "rat \<Rightarrow> string" where
  "fmt_example x = (case map_of [(44, ''44''), (9, ''9.0'')] x of Some s \<Rightarrow> s | None \<Rightarrow> ''0'')"

definition naive_sum :: "rat list \<Rightarrow> rat" where
  "naive_sum xs = foldl (\<lambda>a x. round64 (a + x)) 0 xs"

text \<open>
  A table of three result rows with both driver-number columns. The second row has no
  driver name; the third has no driver number, no grid position and no points, and
  its position is not a number.
\<close>

definition results_example :: frame where
  "results_example =
     \<lparr>columns = [''Season'', ''RaceNumber'', ''Driver'', ''Constructor'', ''DriverNumber'',
                 ''DriverNumber.1'', ''Position'', ''Grid'', ''Points'', ''Time/Retired''],
      dtypes = mk_dtypes [(''Season'', Int64), (''RaceNumber'', Int64),
                 (''DriverNumber'', Float64), (''Grid'', Float64)],
      rows =
       [mk_row [(''Season'', Num 2021), (''RaceNumber'', Num 1), (''Driver'', Str '' HAM ''),
                (''Constructor'', Str ''Mercedes''), (''DriverNumber.1'', Str ''44''),
                (''Position'', Str ''1''), (''Grid'', Num 2), (''Points'', Str ''25''),
                (''Time/Retired'', Str ''1:32:03.897'')],
        mk_row [(''Season'', Num 2021), (''RaceNumber'', Num 1),
                (''Constructor'', Str ''Haas''), (''DriverNumber'', Num 9),
                (''DriverNumber.1'', Str ''#9''),
                (''Position'', Str ''19''), (''Grid'', Num 20), (''Points'', Str ''DSQ''),
                (''Time/Retired'', Str ''Retired'')],
        mk_row [(''Season'', Num 2021), (''RaceNumber'', Num 2), (''Driver'', Str ''ALO''),
                (''Constructor'', Str ''Alpine''),
                (''Position'', Str ''NC''),
                (''Time/Retired'', Str ''+1 Lap'')]]\<rparr>"

text \<open>A selection: season 2021, two teams, no DNFs.\<close>

definition selection_example :: selection where
  "selection_example =
     \<lparr>sel_seasons = [Num 2021], sel_races = [], sel_teams = [Str ''Mercedes'', Str ''Alpine''],
      sel_drivers = [], include_dnfs = False, only_points = False\<rparr>"

text \<open>The selection that filters nothing.\<close>

definition no_selection :: selection where
  "no_selection =
     \<lparr>sel_seasons = [], sel_races = [], sel_teams = [], sel_drivers = [],
      include_dnfs = True, only_points = False\<rparr>"

text \<open>
  A table of whole numbers at the ends of their ranges. Every number column but
  \<^verbatim>\<open>DriverNumber.1\<close> is int64; \<^verbatim>\<open>DriverNumber.1\<close> has a missing value and is float64.
  The first driver number is \<^verbatim>\<open>2^53 + 1\<close>, the first grid position the largest int64.
\<close>

definition big_numbers_example :: frame where
  "big_numbers_example =
     \<lparr>columns = [''Season'', ''RaceNumber'', ''Driver'', ''Constructor'', ''DriverNumber'',
                 ''DriverNumber.1'', ''Position'', ''Grid'', ''Points''],
      dtypes = mk_dtypes [(''Season'', Int64), (''RaceNumber'', Int64),
                 (''DriverNumber'', Int64), (''DriverNumber.1'', Float64),
                 (''Position'', Int64), (''Grid'', Int64), (''Points'', Int64)],
      rows =
       [mk_row [(''Season'', Num 2021), (''RaceNumber'', Num 1), (''Driver'', Str ''A''),
                (''Constructor'', Str ''X''), (''DriverNumber'', Num 9007199254740993),
                (''Position'', Num (- 1)), (''Grid'', Num 9223372036854775807),
                (''Points'', Num 0)],
        mk_row [(''Season'', Num 2021), (''RaceNumber'', Num 1), (''Driver'', Str ''B''),
                (''Constructor'', Str ''Y''), (''DriverNumber'', Num 44),
                (''DriverNumber.1'', Num 44),
                (''Position'', Num 1), (''Grid'', Num 3), (''Points'', Num 25)]]\<rparr>"

text \<open>Two drivers with the same points; B comes first in the table.\<close>

definition ties_example :: frame where
  "ties_example =
     \<lparr>columns = [''Season'', ''RaceNumber'', ''Driver'', ''Constructor'', ''Points''],
      dtypes = mk_dtypes [(''Season'', Int64), (''RaceNumber'', Int64), (''Points'', Int64)],
      rows =
       [mk_row [(''Season'', Num 2021), (''RaceNumber'', Num 1), (''Driver'', Str ''B''),
                (''Constructor'', Str ''Y''), (''Points'', Num 10)],
        mk_row [(''Season'', Num 2021), (''RaceNumber'', Num 1), (''Driver'', Str ''A''),
                (''Constructor'', Str ''X''), (''Points'', Num 10)]]\<rparr>"




text \<open>
  Points with a decimal point, a float64 column: 0.1 and 1.1 are the float64 numbers
  nearest to one tenth and to eleven tenths.
\<close>

definition tenths_example :: frame where
  "tenths_example =
     \<lparr>columns = [''Season'', ''RaceNumber'', ''Driver'', ''Constructor'', ''Points''],
      dtypes = mk_dtypes [(''Season'', Int64), (''RaceNumber'', Int64), (''Points'', Float64)],
      rows =
       [mk_row [(''Season'', Num 2021), (''RaceNumber'', Num 1), (''Driver'', Str ''A''),
                (''Constructor'', Str ''X''), (''Points'', Num (round64 (1 / 10)))],
        mk_row [(''Season'', Num 2021), (''RaceNumber'', Num 1), (''Driver'', Str ''B''),
                (''Constructor'', Str ''Y''), (''Points'', Num (round64 (1 / 10)))],
        mk_row [(''Season'', Num 2021), (''RaceNumber'', Num 2), (''Driver'', Str ''A''),
                (''Constructor'', Str ''X''), (''Points'', Num (round64 (11 / 10)))]]\<rparr>"


section \<open>Facts about machine numbers\<close>

lemma wrap64_id: "- (2 ^ 63) \<le> n \<Longrightarrow> n < 2 ^ 63 \<Longrightarrow> wrap64 n = n"
  by (simp add: wrap64_def)

lemma wrap64_cong: "wrap64 (wrap64 a + b) = wrap64 (a + b)"
  unfolding wrap64_def by (simp add: mod_simps algebra_simps)

lemma round_half_even_of_int: "round_half_even (of_int z) = z"
  by (simp add: round_half_even_def)

lemma ilog2_le:
  assumes "0 < q"
  shows "2 powi ilog2 q \<le> q"
proof (cases "1 \<le> q")
  case True
  then have n: "0 < \<lfloor>q\<rfloor>" by simp
  then have b: "1 \<le> bitlen \<lfloor>q\<rfloor>" by (simp add: bitlen_alt_def)
  from bitlen_bounds [OF n] have "2 ^ nat (bitlen \<lfloor>q\<rfloor> - 1) \<le> \<lfloor>q\<rfloor>" ..
  then have "(of_int (2 ^ nat (bitlen \<lfloor>q\<rfloor> - 1)) :: rat) \<le> of_int \<lfloor>q\<rfloor>"
    by (simp only: of_int_le_iff)
  also have "\<dots> \<le> q" by simp
  finally have "(2::rat) ^ nat (bitlen \<lfloor>q\<rfloor> - 1) \<le> q" by simp
  moreover have "(2::rat) powi (bitlen \<lfloor>q\<rfloor> - 1) = 2 ^ nat (bitlen \<lfloor>q\<rfloor> - 1)"
    using b by (simp add: power_int_def)
  ultimately show ?thesis using True by (simp add: ilog2_def)
next
  case False
  with assms have r: "1 < 1 / q" by simp
  define c where "c = \<lceil>1 / q\<rceil>"
  from r have c: "2 \<le> c" unfolding c_def by (simp add: le_ceiling_iff)
  then have m: "0 < c - 1" by simp
  define L where "L = bitlen (c - 1)"
  from bitlen_bounds [OF m] have "c - 1 < 2 ^ nat L" unfolding L_def ..
  then have "c \<le> 2 ^ nat L" by simp
  then have "(of_int c :: rat) \<le> of_int (2 ^ nat L)" by (simp only: of_int_le_iff)
  then have "(of_int c :: rat) \<le> 2 ^ nat L" by simp
  moreover have "1 / q \<le> of_int c" unfolding c_def by (rule le_of_int_ceiling)
  ultimately have "1 / q \<le> 2 ^ nat L" by (rule order_trans [rotated])
  with assms have "1 / 2 ^ nat L \<le> q"
    by (simp add: field_simps)
  moreover have "0 \<le> L" unfolding L_def by (rule bitlen_nonneg)
  then have "(2::rat) powi (- L) = 1 / 2 ^ nat L"
    by (simp add: power_int_def field_simps)
  ultimately show ?thesis using False by (simp add: ilog2_def c_def L_def)
qed

lemma round64_exact:
  assumes q: "q = of_int m * 2 powi k" and m: "\<bar>m\<bar> < 2 ^ 53" and k: "- 1074 \<le> k"
  shows "round64 q = q"
proof (cases "q = 0")
  case True
  then show ?thesis by (simp add: round64_def)
next
  case False
  define e where "e = max (ilog2 \<bar>q\<bar> - 52) (- 1074)"
  have pos: "0 < \<bar>q\<bar>" using False by simp
  have "2 powi ilog2 \<bar>q\<bar> \<le> \<bar>q\<bar>" using pos by (rule ilog2_le)
  also have "\<bar>q\<bar> = of_int \<bar>m\<bar> * 2 powi k" unfolding q by (simp add: abs_mult)
  also have "\<dots> < of_int (2 ^ 53) * 2 powi k"
    using m by (intro mult_strict_right_mono) (simp_all only: of_int_less_iff, simp)
  also have "\<dots> = 2 powi (53 + k)" by (simp add: power_int_add)
  finally have lt: "(2::rat) powi ilog2 \<bar>q\<bar> < 2 powi (53 + k)" .
  have "ilog2 \<bar>q\<bar> < 53 + k"
  proof (rule ccontr)
    assume "\<not> ilog2 \<bar>q\<bar> < 53 + k"
    then have "53 + k \<le> ilog2 \<bar>q\<bar>" by simp
    then have "(2::rat) powi (53 + k) \<le> 2 powi ilog2 \<bar>q\<bar>"
      by (rule power_int_increasing) simp
    with lt show False by simp
  qed
  with k have ek: "e \<le> k" unfolding e_def by simp
  then obtain n where n: "k - e = int n" by (metis diff_ge_0_iff_ge nonneg_int_cases)
  have "q / 2 powi e = of_int m * (2 powi k / 2 powi e)" unfolding q by simp
  also have "2 powi k / 2 powi e = (2::rat) powi (k - e)" by (simp add: power_int_diff)
  also have "\<dots> = 2 ^ n" unfolding n by (rule power_int_of_nat)
  finally have i: "q / 2 powi e = of_int (m * 2 ^ n)" by simp
  have "round64 q = of_int (round_half_even (q / 2 powi e)) * 2 powi e"
    using False by (simp add: round64_def e_def Let_def)
  also have "\<dots> = of_int (m * 2 ^ n) * 2 powi e"
    unfolding i round_half_even_of_int ..
  also have "\<dots> = (q / 2 powi e) * 2 powi e" by (simp only: i)
  also have "\<dots> = q" by simp
  finally show ?thesis .
qed

lemma round64_of_int: "\<bar>n\<bar> < 2 ^ 53 \<Longrightarrow> round64 (of_int n) = of_int n"
  using round64_exact [of "of_int n" n 0] by simp

lemma as_float64_of_int: "\<bar>n\<bar> < 2 ^ 53 \<Longrightarrow> as_float64 dt (of_int n) = of_int n"
  by (simp add: as_float64_def round64_of_int)

lemma astype_same:
  "dst \<noteq> Float64 \<or> src \<noteq> Int64 \<Longrightarrow> astype src dst c = c"
  by (cases c) (auto simp: as_float64_def)

lemma astype_of_int: "\<bar>n\<bar> < 2 ^ 53 \<Longrightarrow> astype src dst (Num (of_int n)) = Num (of_int n)"
  by (simp add: as_float64_of_int)

lemma notna_astype: "notna (astype src dst c) = notna c"
  by (cases c) (simp_all add: notna_def)

section \<open>Facts about \<^verbatim>\<open>load_csv\<close>\<close>

subsection \<open>Assignments\<close>

lemma rows_assign: "rows (assign c dt f df) = map (\<lambda>r. r(c := f r)) (rows df)"
  by (simp add: assign_def)

lemma has_col_assign: "has_col (assign c dt f df) c' = (c' = c \<or> has_col df c')"
  by (auto simp: assign_def has_col_def)

lemma dtypes_assign: "dtypes (assign c dt f df) c' = (if c' = c then dt else dtypes df c')"
  by (simp add: assign_def)

lemma length_rows_assign: "length (rows (assign c dt f df)) = length (rows df)"
  by (simp add: rows_assign)

lemma nth_assign:
  "i < length (rows df) \<Longrightarrow>
   (rows (assign c dt f df) ! i) c' = (if c' = c then f (rows df ! i) else (rows df ! i) c')"
  by (simp add: rows_assign)

lemmas assign_simps = has_col_assign length_rows_assign nth_assign dtypes_assign

subsection \<open>The stages of \<^verbatim>\<open>load_csv\<close>, column by column\<close>

lemma resolve_driver_number_len: "length (rows (resolve_driver_number df)) = length (rows df)"
  by (simp add: resolve_driver_number_def assign_simps Let_def split: option.splits)

lemma resolve_driver_number_cols:
  "has_col (resolve_driver_number df) c = (c = ''DriverNumber_clean'' \<or> has_col df c)"
  by (simp add: resolve_driver_number_def assign_simps Let_def split: option.splits)

lemma resolve_driver_number_other:
  "i < length (rows df) \<Longrightarrow> c \<noteq> ''DriverNumber_clean'' \<Longrightarrow>
   (rows (resolve_driver_number df) ! i) c = (rows df ! i) c"
  by (simp add: resolve_driver_number_def assign_simps Let_def split: option.splits)

lemma resolve_driver_number_dtypes_other:
  "c \<noteq> ''DriverNumber_clean'' \<Longrightarrow> dtypes (resolve_driver_number df) c = dtypes df c"
  by (simp add: resolve_driver_number_def assign_simps Let_def split: option.splits)

lemma set_pos_num_len: "length (rows (set_pos_num parse pc df)) = length (rows df)"
  by (simp add: set_pos_num_def assign_simps Let_def split: option.splits)

lemma set_pos_num_cols:
  "has_col (set_pos_num parse pc df) c = (c = ''Pos_num'' \<or> has_col df c)"
  by (simp add: set_pos_num_def assign_simps Let_def split: option.splits)

lemma set_pos_num_other:
  "i < length (rows df) \<Longrightarrow> c \<noteq> ''Pos_num'' \<Longrightarrow>
   (rows (set_pos_num parse pc df) ! i) c = (rows df ! i) c"
  by (simp add: set_pos_num_def assign_simps Let_def split: option.splits)

lemma set_pos_num_dtypes_other:
  "c \<noteq> ''Pos_num'' \<Longrightarrow> dtypes (set_pos_num parse pc df) c = dtypes df c"
  by (simp add: set_pos_num_def assign_simps Let_def split: option.splits)

lemma set_grid_num_len: "length (rows (set_grid_num parse df)) = length (rows df)"
  by (simp add: set_grid_num_def assign_simps Let_def split: option.splits)

lemma set_grid_num_cols:
  "has_col (set_grid_num parse df) c = (c = ''Grid_num'' \<or> has_col df c)"
  by (simp add: set_grid_num_def assign_simps Let_def split: option.splits)

lemma set_grid_num_other:
  "i < length (rows df) \<Longrightarrow> c \<noteq> ''Grid_num'' \<Longrightarrow>
   (rows (set_grid_num parse df) ! i) c = (rows df ! i) c"
  by (simp add: set_grid_num_def assign_simps Let_def split: option.splits)

lemma set_grid_num_dtypes_other:
  "c \<noteq> ''Grid_num'' \<Longrightarrow> dtypes (set_grid_num parse df) c = dtypes df c"
  by (simp add: set_grid_num_def assign_simps Let_def split: option.splits)

lemma fill_points_len: "length (rows (fill_points parse df)) = length (rows df)"
  by (simp add: fill_points_def assign_simps Let_def split: option.splits)

lemma fill_points_cols:
  "has_col (fill_points parse df) c = (c = ''Points'' \<or> has_col df c)"
  by (simp add: fill_points_def assign_simps Let_def split: option.splits)

lemma fill_points_other:
  "i < length (rows df) \<Longrightarrow> c \<noteq> ''Points'' \<Longrightarrow>
   (rows (fill_points parse df) ! i) c = (rows df ! i) c"
  by (simp add: fill_points_def assign_simps Let_def split: option.splits)

lemma fill_points_dtypes_other:
  "c \<noteq> ''Points'' \<Longrightarrow> dtypes (fill_points parse df) c = dtypes df c"
  by (simp add: fill_points_def assign_simps Let_def split: option.splits)

lemma set_is_dnf_len: "length (rows (set_is_dnf fmt df)) = length (rows df)"
  by (simp add: set_is_dnf_def assign_simps Let_def split: option.splits)

lemma set_is_dnf_cols:
  "has_col (set_is_dnf fmt df) c = (c = ''IsDNF'' \<or> has_col df c)"
  by (simp add: set_is_dnf_def assign_simps Let_def split: option.splits)

lemma set_is_dnf_other:
  "i < length (rows df) \<Longrightarrow> c \<noteq> ''IsDNF'' \<Longrightarrow>
   (rows (set_is_dnf fmt df) ! i) c = (rows df ! i) c"
  by (simp add: set_is_dnf_def assign_simps Let_def split: option.splits)

lemma set_is_dnf_dtypes_other:
  "c \<noteq> ''IsDNF'' \<Longrightarrow> dtypes (set_is_dnf fmt df) c = dtypes df c"
  by (simp add: set_is_dnf_def assign_simps Let_def split: option.splits)

lemma set_pos_gain_len: "length (rows (set_pos_gain df)) = length (rows df)"
  by (simp add: set_pos_gain_def assign_simps Let_def split: option.splits)

lemma set_pos_gain_cols:
  "has_col (set_pos_gain df) c = (c = ''PosGain'' \<or> has_col df c)"
  by (simp add: set_pos_gain_def assign_simps Let_def split: option.splits)

lemma set_pos_gain_other:
  "i < length (rows df) \<Longrightarrow> c \<noteq> ''PosGain'' \<Longrightarrow>
   (rows (set_pos_gain df) ! i) c = (rows df ! i) c"
  by (simp add: set_pos_gain_def assign_simps Let_def split: option.splits)

lemma set_pos_gain_dtypes_other:
  "c \<noteq> ''PosGain'' \<Longrightarrow> dtypes (set_pos_gain df) c = dtypes df c"
  by (simp add: set_pos_gain_def assign_simps Let_def split: option.splits)

lemma numeric_if_present_len: "length (rows (numeric_if_present parse c df)) = length (rows df)"
  by (simp add: numeric_if_present_def assign_simps)

lemma numeric_if_present_cols: "has_col (numeric_if_present parse c df) c' = has_col df c'"
  by (auto simp: numeric_if_present_def assign_simps)

lemma numeric_if_present_other:
  "i < length (rows df) \<Longrightarrow> c' \<noteq> c \<Longrightarrow>
   (rows (numeric_if_present parse c df) ! i) c' = (rows df ! i) c'"
  by (simp add: numeric_if_present_def assign_simps)

lemma numeric_if_present_dtypes_other:
  "c' \<noteq> c \<Longrightarrow> dtypes (numeric_if_present parse c df) c' = dtypes df c'"
  by (simp add: numeric_if_present_def assign_simps)

lemma strip_text_len: "length (rows (strip_text fmt c df)) = length (rows df)"
  by (simp add: strip_text_def assign_simps)

lemma strip_text_cols: "has_col (strip_text fmt c df) c' = has_col df c'"
  by (auto simp: strip_text_def assign_simps)

lemma strip_text_other:
  "i < length (rows df) \<Longrightarrow> c' \<noteq> c \<Longrightarrow>
   (rows (strip_text fmt c df) ! i) c' = (rows df ! i) c'"
  by (simp add: strip_text_def assign_simps)

lemma strip_text_dtypes_other:
  "c' \<noteq> c \<Longrightarrow> dtypes (strip_text fmt c df) c' = dtypes df c'"
  by (simp add: strip_text_def assign_simps)

lemma resolve_driver_number_clean:
  "i < length (rows df) \<Longrightarrow>
   (rows (resolve_driver_number df) ! i) ''DriverNumber_clean'' =
     (if has_col df ''DriverNumber'' \<and> has_col df ''DriverNumber.1'' then
        (if notna ((rows df ! i) ''DriverNumber'')
         then astype (dtypes df ''DriverNumber'')
                (result_type (dtypes df ''DriverNumber'') (dtypes df ''DriverNumber.1''))
                ((rows df ! i) ''DriverNumber'')
         else astype (dtypes df ''DriverNumber.1'')
                (result_type (dtypes df ''DriverNumber'') (dtypes df ''DriverNumber.1''))
                ((rows df ! i) ''DriverNumber.1''))
      else if has_col df ''DriverNumber'' then (rows df ! i) ''DriverNumber''
      else if has_col df ''DriverNumber.1'' then (rows df ! i) ''DriverNumber.1''
      else NaN)"
  by (simp add: resolve_driver_number_def assign_simps Let_def)

lemma set_pos_num_same:
  "i < length (rows df) \<Longrightarrow>
   (rows (set_pos_num parse pc df) ! i) ''Pos_num'' =
     (case pc of Some c \<Rightarrow> to_numeric parse ((rows df ! i) c) | None \<Rightarrow> NaN)"
  by (simp add: set_pos_num_def assign_simps split: option.splits)

lemma set_pos_num_dtype:
  "dtypes (set_pos_num parse pc df) ''Pos_num'' =
     (case pc of Some c \<Rightarrow> numeric_dtype (dtypes df c) | None \<Rightarrow> Float64)"
  by (simp add: set_pos_num_def assign_simps split: option.splits)

lemma set_grid_num_same:
  "i < length (rows df) \<Longrightarrow>
   (rows (set_grid_num parse df) ! i) ''Grid_num'' =
     (if has_col df ''Grid'' then to_numeric parse ((rows df ! i) ''Grid'') else NaN)"
  by (simp add: set_grid_num_def assign_simps)

lemma set_grid_num_dtype:
  "dtypes (set_grid_num parse df) ''Grid_num'' =
     (if has_col df ''Grid'' then numeric_dtype (dtypes df ''Grid'') else Float64)"
  by (simp add: set_grid_num_def assign_simps)

lemma fill_points_same:
  "i < length (rows df) \<Longrightarrow>
   (rows (fill_points parse df) ! i) ''Points'' = fillna 0 (to_numeric parse ((rows df ! i) ''Points''))"
  by (simp add: fill_points_def assign_simps)

lemma fill_points_dtype:
  "dtypes (fill_points parse df) ''Points'' = numeric_dtype (dtypes df ''Points'')"
  by (simp add: fill_points_def assign_simps)

lemma set_is_dnf_same:
  "i < length (rows df) \<Longrightarrow>
   (rows (set_is_dnf fmt df) ! i) ''IsDNF'' =
     Bool (isna ((rows df ! i) ''Pos_num'') \<or>
           (has_col df ''Time/Retired'' \<and>
            str_contains dnf_tokens (str_lower (astype_str fmt ((rows df ! i) ''Time/Retired'')))))"
  by (simp add: set_is_dnf_def assign_simps)

lemma set_pos_gain_same:
  "i < length (rows df) \<Longrightarrow>
   (rows (set_pos_gain df) ! i) ''PosGain'' =
     sub_cell (dtypes df ''Grid_num'') (dtypes df ''Pos_num'')
       ((rows df ! i) ''Grid_num'') ((rows df ! i) ''Pos_num'')"
  by (simp add: set_pos_gain_def assign_simps Let_def)

lemma strip_text_same:
  "i < length (rows df) \<Longrightarrow> has_col df c \<Longrightarrow>
   (rows (strip_text fmt c df) ! i) c = Str (str_strip (astype_str fmt ((rows df ! i) c)))"
  by (simp add: strip_text_def assign_simps)

lemmas stage_len = resolve_driver_number_len set_pos_num_len set_grid_num_len fill_points_len
  numeric_if_present_len set_is_dnf_len set_pos_gain_len strip_text_len length_rows_assign

lemmas stage_cols = resolve_driver_number_cols set_pos_num_cols set_grid_num_cols fill_points_cols
  numeric_if_present_cols set_is_dnf_cols set_pos_gain_cols strip_text_cols has_col_assign

lemmas stage_other = resolve_driver_number_other set_pos_num_other set_grid_num_other
  fill_points_other numeric_if_present_other set_is_dnf_other set_pos_gain_other strip_text_other

lemmas stage_dtypes_other = resolve_driver_number_dtypes_other set_pos_num_dtypes_other
  set_grid_num_dtypes_other fill_points_dtypes_other numeric_if_present_dtypes_other
  set_is_dnf_dtypes_other set_pos_gain_dtypes_other strip_text_dtypes_other

lemma load_csv_eq:
  "load_csv parse fmt df = (if has_col df ''Points'' then Inr (loaded parse fmt df) else Inl AttributeError)"
  by (simp add: load_csv_def set_points_def loaded_def Let_def stage_cols)

lemma load_csv_Inr:
  "load_csv parse fmt df = Inr t \<Longrightarrow> has_col df ''Points'' \<and> t = loaded parse fmt df"
  by (simp add: load_csv_eq split: if_splits)

lemma loaded_len: "length (rows (loaded parse fmt df)) = length (rows df)"
  by (simp add: loaded_def stage_len)

subsection \<open>The columns of the loaded table\<close>

lemma loaded_cols:
  "has_col (loaded parse fmt df) c =
     (c \<in> {''DriverNumber_clean'', ''Pos_num'', ''Grid_num'', ''Points'', ''IsDNF'', ''PosGain''} \<or> has_col df c)"
  by (auto simp: loaded_def stage_cols)

lemma loaded_clean:
  "i < length (rows df) \<Longrightarrow>
   (rows (loaded parse fmt df) ! i) ''DriverNumber_clean'' =
     (if has_col df ''DriverNumber'' \<and> has_col df ''DriverNumber.1'' then
        (if notna ((rows df ! i) ''DriverNumber'')
         then astype (dtypes df ''DriverNumber'')
                (result_type (dtypes df ''DriverNumber'') (dtypes df ''DriverNumber.1''))
                ((rows df ! i) ''DriverNumber'')
         else astype (dtypes df ''DriverNumber.1'')
                (result_type (dtypes df ''DriverNumber'') (dtypes df ''DriverNumber.1''))
                ((rows df ! i) ''DriverNumber.1''))
      else if has_col df ''DriverNumber'' then (rows df ! i) ''DriverNumber''
      else if has_col df ''DriverNumber.1'' then (rows df ! i) ''DriverNumber.1''
      else NaN)"
  unfolding loaded_def
  by (simp add: stage_other stage_len resolve_driver_number_clean)

lemma loaded_pos_num:
  "i < length (rows df) \<Longrightarrow>
   (rows (loaded parse fmt df) ! i) ''Pos_num'' =
     (case pos_col df of Some c \<Rightarrow> to_numeric parse ((rows df ! i) c) | None \<Rightarrow> NaN)"
  unfolding loaded_def
  by (simp add: stage_other stage_len set_pos_num_same resolve_driver_number_other
      pos_col_def)

lemma loaded_pos_num_dtype:
  "dtypes (loaded parse fmt df) ''Pos_num'' =
     (case pos_col df of Some c \<Rightarrow> numeric_dtype (dtypes df c) | None \<Rightarrow> Float64)"
  unfolding loaded_def
  by (simp add: stage_dtypes_other set_pos_num_dtype pos_col_def)

lemma loaded_grid_num:
  "i < length (rows df) \<Longrightarrow>
   (rows (loaded parse fmt df) ! i) ''Grid_num'' =
     (if has_col df ''Grid'' then to_numeric parse ((rows df ! i) ''Grid'') else NaN)"
  unfolding loaded_def
  by (simp add: stage_other stage_len stage_cols set_grid_num_same)

lemma loaded_grid_num_dtype:
  "dtypes (loaded parse fmt df) ''Grid_num'' =
     (if has_col df ''Grid'' then numeric_dtype (dtypes df ''Grid'') else Float64)"
  unfolding loaded_def
  by (simp add: stage_dtypes_other stage_cols set_grid_num_dtype)

lemma loaded_points:
  "i < length (rows df) \<Longrightarrow>
   (rows (loaded parse fmt df) ! i) ''Points'' =
     fillna 0 (to_numeric parse ((rows df ! i) ''Points''))"
  unfolding loaded_def
  by (simp add: stage_other stage_len stage_cols fill_points_same)

lemma loaded_points_dtype:
  "dtypes (loaded parse fmt df) ''Points'' = numeric_dtype (dtypes df ''Points'')"
  unfolding loaded_def
  by (simp add: stage_dtypes_other fill_points_dtype)

lemma loaded_src:
  "i < length (rows df) \<Longrightarrow>
   c \<notin> {''DriverNumber_clean'', ''Pos_num'', ''Grid_num'', ''Points'', ''NPitstops'',
         ''MedianPitStopDuration'', ''IsDNF'', ''PosGain'', ''Driver'', ''Constructor''} \<Longrightarrow>
   (rows (loaded parse fmt df) ! i) c = (rows df ! i) c"
  unfolding loaded_def
  by (simp add: stage_other stage_len stage_cols)

lemma loaded_is_dnf:
  "i < length (rows df) \<Longrightarrow>
   (rows (loaded parse fmt df) ! i) ''IsDNF'' =
     Bool (isna ((rows (loaded parse fmt df) ! i) ''Pos_num'') \<or>
           (has_col df ''Time/Retired'' \<and>
            str_contains dnf_tokens (str_lower (astype_str fmt ((rows df ! i) ''Time/Retired'')))))"
  unfolding loaded_def
  by (simp add: stage_other stage_len stage_cols set_is_dnf_same)

lemma loaded_pos_gain:
  "i < length (rows df) \<Longrightarrow>
   (rows (loaded parse fmt df) ! i) ''PosGain'' =
     sub_cell (dtypes (loaded parse fmt df) ''Grid_num'') (dtypes (loaded parse fmt df) ''Pos_num'')
       ((rows (loaded parse fmt df) ! i) ''Grid_num'')
       ((rows (loaded parse fmt df) ! i) ''Pos_num'')"
  unfolding loaded_def
  by (simp add: stage_other stage_len stage_cols stage_dtypes_other set_pos_gain_same)

lemma loaded_driver:
  "i < length (rows df) \<Longrightarrow> has_col df ''Driver'' \<Longrightarrow>
   (rows (loaded parse fmt df) ! i) ''Driver'' =
     Str (str_strip (astype_str fmt ((rows df ! i) ''Driver'')))"
  unfolding loaded_def
  by (simp add: stage_other stage_len stage_cols strip_text_same)

lemma loaded_constructor:
  "i < length (rows df) \<Longrightarrow> has_col df ''Constructor'' \<Longrightarrow>
   (rows (loaded parse fmt df) ! i) ''Constructor'' =
     Str (str_strip (astype_str fmt ((rows df ! i) ''Constructor'')))"
  unfolding loaded_def
  by (simp add: stage_other stage_len stage_cols strip_text_same)

lemma occurs_in_iff: "occurs_in t s \<longleftrightarrow> (\<exists>p q. s = p @ t @ q)"
proof (induction s)
  case Nil
  then show ?case by auto
next
  case (Cons c cs)
  show ?case
  proof
    assume "occurs_in t (c # cs)"
    then consider "prefix t (c # cs)" | "occurs_in t cs" by auto
    then show "\<exists>p q. c # cs = p @ t @ q"
    proof cases
      case 1
      then obtain q where "c # cs = t @ q" by (auto simp: prefix_def)
      then have "c # cs = [] @ t @ q" by simp
      then show ?thesis by blast
    next
      case 2
      with Cons.IH obtain p q where "cs = p @ t @ q" by blast
      then have "c # cs = (c # p) @ t @ q" by simp
      then show ?thesis by blast
    qed
  next
    assume "\<exists>p q. c # cs = p @ t @ q"
    then obtain p q where pq: "c # cs = p @ t @ q" by blast
    show "occurs_in t (c # cs)"
    proof (cases p)
      case Nil
      with pq have "prefix t (c # cs)" by (simp add: prefix_def)
      then show ?thesis by simp
    next
      case (Cons a p')
      with pq have "cs = p' @ t @ q" by simp
      with Cons.IH have "occurs_in t cs" by blast
      then show ?thesis by simp
    qed
  qed
qed

lemma to_numeric_cases: "to_numeric parse c = NaN \<or> (\<exists>x. to_numeric parse c = Num x)"
  by (cases c) (auto split: option.splits)

lemma str_strip_trimmed:
  "str_strip s = [] \<or> (\<not> is_space (hd (str_strip s)) \<and> \<not> is_space (last (str_strip s)))"
proof (cases "str_strip s = []")
  case True
  then show ?thesis by simp
next
  case False
  define ys where "ys = dropWhile is_space s"
  define zs where "zs = dropWhile is_space (rev ys)"
  have st: "str_strip s = rev zs" by (simp add: str_strip_def ys_def zs_def)
  with False have zs: "zs \<noteq> []" by simp
  then have "\<not> is_space (hd zs)" unfolding zs_def by (rule hd_dropWhile)
  then have l: "\<not> is_space (last (str_strip s))" using zs st by (simp add: last_rev)
  from zs have ys: "ys \<noteq> []" by (auto simp: zs_def)
  then have hy: "\<not> is_space (hd ys)" unfolding ys_def by (rule hd_dropWhile)
  obtain pre where "rev ys = pre @ zs"
    unfolding zs_def by (metis takeWhile_dropWhile_id)
  then have "last (rev ys) = last zs" using zs by simp
  then have "hd ys = last zs" using ys by (simp add: last_rev)
  then have "hd (str_strip s) = hd ys" using zs st by (simp add: hd_rev)
  with hy l show ?thesis by simp
qed

section \<open>The example table, loaded\<close>

lemma column_nth: "column_of c df = vs \<Longrightarrow> i < length vs \<Longrightarrow> (rows df ! i) c = vs ! i"
  by (auto simp: column_of_def)

lemma list3: "length xs = 3 \<Longrightarrow> xs = [xs ! 0, xs ! 1, xs ! 2]"
  by (rule nth_equalityI) (auto simp: less_Suc_eq numeral_3_eq_3 numeral_2_eq_2)

lemma results_example_loads:
  "load_csv parse_example fmt_example results_example =
     Inr (loaded parse_example fmt_example results_example)"
  by (simp add: load_csv_eq has_col_def results_example_def)

lemma results_example_rows: "length (rows results_example) = 3"
  by (simp add: results_example_def)

lemma results_example_pos_num:
  "column_of ''Pos_num'' (loaded parse_example fmt_example results_example)
     = [Num 1, Num 19, NaN]"
  unfolding column_of_def
  by (rule nth_equalityI)
     (simp_all add: loaded_len loaded_pos_num results_example_rows less_Suc_eq numeral_3_eq_3,
      auto simp: results_example_def mk_row_def pos_col_def has_col_def parse_example_def)

lemma results_example_grid_num:
  "column_of ''Grid_num'' (loaded parse_example fmt_example results_example)
     = [Num 2, Num 20, NaN]"
  unfolding column_of_def
  by (rule nth_equalityI)
     (simp_all add: loaded_len loaded_grid_num results_example_rows less_Suc_eq numeral_3_eq_3,
      auto simp: results_example_def mk_row_def has_col_def parse_example_def)

lemma results_example_loaded_rows:
  "rows (loaded parse_example fmt_example results_example) =
     [rows (loaded parse_example fmt_example results_example) ! 0,
      rows (loaded parse_example fmt_example results_example) ! 1,
      rows (loaded parse_example fmt_example results_example) ! 2]"
  by (rule list3) (simp add: loaded_len results_example_rows)

lemma results_example_season:
  "column_of ''Season'' (loaded parse_example fmt_example results_example)
     = [Num 2021, Num 2021, Num 2021]"
  unfolding column_of_def
  by (rule nth_equalityI)
     (simp_all add: loaded_len loaded_src results_example_rows less_Suc_eq numeral_3_eq_3,
      auto simp: results_example_def mk_row_def)

lemma results_example_constructor:
  "column_of ''Constructor'' (loaded parse_example fmt_example results_example)
     = [Str ''Mercedes'', Str ''Haas'', Str ''Alpine'']"
  unfolding column_of_def
  by (rule nth_equalityI)
     (simp_all add: loaded_len results_example_rows less_Suc_eq numeral_3_eq_3,
      auto simp: loaded_constructor results_example_rows has_col_def results_example_def
        mk_row_def str_strip_def is_space_def)

lemma results_example_driver:
  "column_of ''Driver'' (loaded parse_example fmt_example results_example)
     = [Str ''HAM'', Str ''nan'', Str ''ALO'']"
  unfolding column_of_def
  by (rule nth_equalityI)
     (simp_all add: loaded_len results_example_rows less_Suc_eq numeral_3_eq_3,
      auto simp: loaded_driver results_example_rows has_col_def results_example_def
        mk_row_def str_strip_def is_space_def)

lemma results_example_is_dnf:
  "column_of ''IsDNF'' (loaded parse_example fmt_example results_example)
     = [Bool False, Bool True, Bool True]"
proof -
  let ?t = "loaded parse_example fmt_example results_example"
  have p: "isna ((rows ?t ! i) ''Pos_num'') = (i = 2)" if "i < 3" for i
    using results_example_pos_num that
    by (auto simp: column_nth isna_def less_Suc_eq numeral_3_eq_3 numeral_2_eq_2)
  have t: "has_col results_example ''Time/Retired''"
    by (simp add: has_col_def results_example_def)
  have s: "map (\<lambda>r. str_contains dnf_tokens (str_lower (astype_str fmt_example (r ''Time/Retired''))))
             (rows results_example) = [False, True, False]"
    by (simp add: results_example_def mk_row_def str_contains_def dnf_tokens_def str_lower_def
        lower_char_def)
  have s': "str_contains dnf_tokens
              (str_lower (astype_str fmt_example ((rows results_example ! i) ''Time/Retired'')))
            = [False, True, False] ! i" if "i < 3" for i
    using s that by (simp add: list_eq_iff_nth_eq)
  have "(rows ?t ! i) ''IsDNF'' = [Bool False, Bool True, Bool True] ! i" if "i < 3" for i
    using that by (auto simp: loaded_is_dnf results_example_rows p t s' less_Suc_eq numeral_3_eq_3 numeral_2_eq_2)
  then show ?thesis
    unfolding column_of_def
    by (intro nth_equalityI) (simp_all add: loaded_len results_example_rows)
qed

lemma big_numbers_example_loads:
  "load_csv parse_example fmt_example big_numbers_example =
     Inr (loaded parse_example fmt_example big_numbers_example)"
  by (simp add: load_csv_eq has_col_def big_numbers_example_def)

lemma big_numbers_example_rows: "length (rows big_numbers_example) = 2"
  by (simp add: big_numbers_example_def)

lemma big_numbers_example_cols:
  "has_col big_numbers_example ''DriverNumber''" "has_col big_numbers_example ''DriverNumber.1''"
  "has_col big_numbers_example ''Grid''" "pos_col big_numbers_example = Some ''Position''"
  by (simp_all add: has_col_def pos_col_def big_numbers_example_def)

lemma big_numbers_example_dtypes:
  "dtypes big_numbers_example ''DriverNumber'' = Int64"
  "dtypes big_numbers_example ''DriverNumber.1'' = Float64"
  "dtypes big_numbers_example ''Grid'' = Int64"
  "dtypes big_numbers_example ''Position'' = Int64"
  by (simp_all add: big_numbers_example_def mk_dtypes_def)

lemma results_example_dtypes:
  "dtypes results_example ''DriverNumber'' = Float64"
  "dtypes results_example ''DriverNumber.1'' = Object"
  "dtypes results_example ''Grid'' = Float64"
  "dtypes results_example ''Position'' = Object"
  "dtypes results_example ''Points'' = Object"
  by (simp_all add: results_example_def mk_dtypes_def)

section \<open>Properties of the loaded table\<close>

text \<open>
  Claim C1. In every row of the loaded table: when the source has a \<^verbatim>\<open>Time/Retired\<close>
  column, \<^verbatim>\<open>IsDNF\<close> is true exactly when \<^verbatim>\<open>Pos_num\<close> is missing or the status text
  (the cell as \<^verbatim>\<open>astype(str)\<close> prints it), lowercased, contains one of the tokens
  ret, dnf, dsq, dns, dnc; when the source has no such column, exactly when \<^verbatim>\<open>Pos_num\<close>
  is missing. Hence \<^verbatim>\<open>IsDNF\<close> is true whenever \<^verbatim>\<open>Pos_num\<close> is missing.
\<close>

theorem is_dnf_rule:
  assumes "load_csv parse fmt df = Inr t" and "i < length (rows t)"
  shows "length (rows t) = length (rows df) \<and>
         (rows t ! i) ''IsDNF'' =
           Bool (if has_col df ''Time/Retired''
                 then isna ((rows t ! i) ''Pos_num'') \<or>
                      (\<exists>tok \<in> set [''ret'', ''dnf'', ''dsq'', ''dns'', ''dnc''].
                         \<exists>p q. str_lower (astype_str fmt ((rows df ! i) ''Time/Retired''))
                                 = p @ tok @ q)
                 else isna ((rows t ! i) ''Pos_num'')) \<and>
         (isna ((rows t ! i) ''Pos_num'') \<longrightarrow> (rows t ! i) ''IsDNF'' = Bool True)"
proof -
  from assms(1) have t: "t = loaded parse fmt df" by (simp add: load_csv_Inr)
  with assms(2) have i: "i < length (rows df)" by (simp add: loaded_len)
  have "str_contains dnf_tokens s \<longleftrightarrow>
        (\<exists>tok \<in> set [''ret'', ''dnf'', ''dsq'', ''dns'', ''dnc'']. \<exists>p q. s = p @ tok @ q)" for s
    unfolding str_contains_def dnf_tokens_def list_ex_iff occurs_in_iff ..
  with i show ?thesis
    unfolding t by (simp add: loaded_len loaded_is_dnf)
qed

text \<open>
  The second row of the example has a position (19) and the status ``Retired''.
\<close>

theorem is_dnf_rule_witness:
  "load_csv parse_example fmt_example results_example
     = Inr (loaded parse_example fmt_example results_example) \<and>
   1 < length (rows (loaded parse_example fmt_example results_example)) \<and>
   (rows (loaded parse_example fmt_example results_example) ! 1) ''Pos_num'' = Num 19 \<and>
   (rows (loaded parse_example fmt_example results_example) ! 1) ''IsDNF'' = Bool True"
proof -
  let ?t = "loaded parse_example fmt_example results_example"
  have n: "1 < length (rows ?t)" by (simp add: loaded_len results_example_rows)
  have p: "(rows ?t ! 1) ''Pos_num'' = Num 19"
    using results_example_pos_num n by (simp add: column_of_def list_eq_iff_nth_eq)
  have "(rows ?t ! 1) ''IsDNF'' = Bool True"
    using is_dnf_rule [OF results_example_loads n] p
    by (simp add: isna_def has_col_def results_example_def mk_row_def str_lower_def
        lower_char_def fmt_example_def flip: occurs_in_iff)
  with n p results_example_loads show ?thesis by simp
qed

text \<open>
  Claim C2 says that \<^verbatim>\<open>PosGain\<close> is exactly the grid position minus the position
  whenever both are present. In the first row of the example both columns are int64,
  the grid position is the largest int64 and the position is -1: the int64
  subtraction wraps around, and \<^verbatim>\<open>PosGain\<close> is the smallest int64, not the difference.
\<close>

theorem pos_gain_wraps_counterexample:
  "load_csv parse_example fmt_example big_numbers_example
     = Inr (loaded parse_example fmt_example big_numbers_example) \<and>
   0 < length (rows (loaded parse_example fmt_example big_numbers_example)) \<and>
   (rows (loaded parse_example fmt_example big_numbers_example) ! 0) ''Grid_num''
     = Num 9223372036854775807 \<and>
   (rows (loaded parse_example fmt_example big_numbers_example) ! 0) ''Pos_num'' = Num (- 1) \<and>
   (rows (loaded parse_example fmt_example big_numbers_example) ! 0) ''PosGain''
     = Num (- 9223372036854775808) \<and>
   (rows (loaded parse_example fmt_example big_numbers_example) ! 0) ''PosGain''
     \<noteq> Num (9223372036854775807 - (- 1))"
proof -
  let ?t = "loaded parse_example fmt_example big_numbers_example"
  have n: "0 < length (rows big_numbers_example)" by (simp add: big_numbers_example_rows)
  have g: "(rows ?t ! 0) ''Grid_num'' = Num 9223372036854775807"
    using n by (simp add: loaded_grid_num big_numbers_example_cols)
      (simp add: big_numbers_example_def mk_row_def)
  have p: "(rows ?t ! 0) ''Pos_num'' = Num (- 1)"
    using n by (simp add: loaded_pos_num big_numbers_example_cols)
      (simp add: big_numbers_example_def mk_row_def)
  have d: "dtypes ?t ''Grid_num'' = Int64" "dtypes ?t ''Pos_num'' = Int64"
    by (simp_all add: loaded_grid_num_dtype loaded_pos_num_dtype big_numbers_example_cols
        big_numbers_example_dtypes numeric_dtype_def)
  have "(rows ?t ! 0) ''PosGain'' = Num (- 9223372036854775808)"
    using n floor_uminus_of_int [of 1, where ?'a = rat]
    by (simp add: loaded_pos_gain g p d wrap64_def)
  with g p n big_numbers_example_loads show ?thesis by (simp add: loaded_len)
qed

text \<open>
  Claim C2, amended. In every row of the loaded table: if \<^verbatim>\<open>Grid_num\<close> and \<^verbatim>\<open>Pos_num\<close>
  are both present they are numbers (finite ones: the model has no \<^verbatim>\<open>inf\<close>, and \<^verbatim>\<open>inf - inf\<close>
  is missing on the machine) and \<^verbatim>\<open>PosGain\<close> is their machine difference: for
  two int64 columns the difference modulo \<^verbatim>\<open>2^64\<close>, which is the exact difference when
  that lies in the int64 range; otherwise the float64 difference, the exact difference
  rounded to the nearest float64 (as long as it is within the float64 range), which
  is the exact difference when that is a float64, as it is for whole numbers below
  \<^verbatim>\<open>2^53\<close>. If one of them is missing, \<^verbatim>\<open>PosGain\<close> is missing (no zero is put in its
  place).
\<close>

theorem pos_gain_machine:
  assumes "load_csv parse fmt df = Inr t" and "i < length (rows t)"
  shows "(\<forall>g p. (rows t ! i) ''Grid_num'' = Num g \<and> (rows t ! i) ''Pos_num'' = Num p \<and>
            dtypes t ''Grid_num'' = Int64 \<and> dtypes t ''Pos_num'' = Int64
            \<longrightarrow> (rows t ! i) ''PosGain'' = Num (of_int (wrap64 (\<lfloor>g\<rfloor> - \<lfloor>p\<rfloor>)))) \<and>
         (\<forall>a b. (rows t ! i) ''Grid_num'' = Num (of_int a) \<and>
            (rows t ! i) ''Pos_num'' = Num (of_int b) \<and>
            dtypes t ''Grid_num'' = Int64 \<and> dtypes t ''Pos_num'' = Int64 \<and>
            - (2 ^ 63) \<le> a - b \<and> a - b < 2 ^ 63
            \<longrightarrow> (rows t ! i) ''PosGain'' = Num (of_int a - of_int b)) \<and>
         (\<forall>g p. (rows t ! i) ''Grid_num'' = Num g \<and> (rows t ! i) ''Pos_num'' = Num p \<and>
            \<not> (dtypes t ''Grid_num'' = Int64 \<and> dtypes t ''Pos_num'' = Int64) \<and>
            \<bar>as_float64 (dtypes t ''Grid_num'') g - as_float64 (dtypes t ''Pos_num'') p\<bar>
              \<le> max_float64
            \<longrightarrow> (rows t ! i) ''PosGain''
                  = Num (round64 (as_float64 (dtypes t ''Grid_num'') g
                                  - as_float64 (dtypes t ''Pos_num'') p))) \<and>
         (\<forall>g p m k. (rows t ! i) ''Grid_num'' = Num g \<and> (rows t ! i) ''Pos_num'' = Num p \<and>
            dtypes t ''Grid_num'' \<noteq> Int64 \<and> dtypes t ''Pos_num'' \<noteq> Int64 \<and>
            g - p = of_int m * 2 powi k \<and> \<bar>m\<bar> < 2 ^ 53 \<and> - 1074 \<le> k \<and> \<bar>g - p\<bar> \<le> max_float64
            \<longrightarrow> (rows t ! i) ''PosGain'' = Num (g - p)) \<and>
         (\<forall>a b. (rows t ! i) ''Grid_num'' = Num (of_int a) \<and>
            (rows t ! i) ''Pos_num'' = Num (of_int b) \<and>
            \<not> (dtypes t ''Grid_num'' = Int64 \<and> dtypes t ''Pos_num'' = Int64) \<and>
            \<bar>a\<bar> < 2 ^ 53 \<and> \<bar>b\<bar> < 2 ^ 53 \<and> \<bar>a - b\<bar> < 2 ^ 53
            \<longrightarrow> (rows t ! i) ''PosGain'' = Num (of_int a - of_int b)) \<and>
         (notna ((rows t ! i) ''Grid_num'') \<and> notna ((rows t ! i) ''Pos_num'')
            \<longrightarrow> (\<exists>g p. (rows t ! i) ''Grid_num'' = Num g \<and> (rows t ! i) ''Pos_num'' = Num p)) \<and>
         (isna ((rows t ! i) ''Grid_num'') \<or> isna ((rows t ! i) ''Pos_num'')
            \<longrightarrow> (rows t ! i) ''PosGain'' = NaN)"
proof -
  from assms(1) have t: "t = loaded parse fmt df" by (simp add: load_csv_Inr)
  with assms(2) have i: "i < length (rows df)" by (simp add: loaded_len)
  let ?G = "(rows t ! i) ''Grid_num''" and ?P = "(rows t ! i) ''Pos_num''"
  let ?dg = "dtypes t ''Grid_num''" and ?dp = "dtypes t ''Pos_num''"
  have g: "?G = NaN \<or> (\<exists>x. ?G = Num x)"
    unfolding t using i to_numeric_cases [of parse "(rows df ! i) ''Grid''"]
    by (simp add: loaded_grid_num)
  have p: "?P = NaN \<or> (\<exists>x. ?P = Num x)"
    unfolding t using i to_numeric_cases [of parse]
    by (simp add: loaded_pos_num split: option.splits)
  have pg: "(rows t ! i) ''PosGain'' = sub_cell ?dg ?dp ?G ?P"
    unfolding t using i by (rule loaded_pos_gain)
  have c1: "(rows t ! i) ''PosGain'' = Num (of_int (wrap64 (\<lfloor>x\<rfloor> - \<lfloor>y\<rfloor>)))"
    if "?G = Num x" "?P = Num y" "?dg = Int64" "?dp = Int64" for x y
    using that by (simp add: pg)
  have c2: "(rows t ! i) ''PosGain'' = Num (of_int a - of_int b)"
    if "?G = Num (of_int a)" "?P = Num (of_int b)" "?dg = Int64" "?dp = Int64"
      "- (2 ^ 63) \<le> a - b" "a - b < 2 ^ 63" for a b
    using that by (simp add: pg wrap64_id)
  have c3: "(rows t ! i) ''PosGain'' = Num (round64 (as_float64 ?dg x - as_float64 ?dp y))"
    if "?G = Num x" "?P = Num y" "\<not> (?dg = Int64 \<and> ?dp = Int64)" for x y
    using that by (auto simp: pg)
  have c4: "(rows t ! i) ''PosGain'' = Num (x - y)"
    if "?G = Num x" "?P = Num y" "?dg \<noteq> Int64" "?dp \<noteq> Int64"
      "x - y = of_int m * 2 powi k" "\<bar>m\<bar> < 2 ^ 53" "- 1074 \<le> k" for x y m k
  proof -
    from that(5-7) have "round64 (x - y) = x - y" by (rule round64_exact)
    with c3 [OF that(1,2)] that(3,4) show ?thesis by (simp add: as_float64_def)
  qed
  have c5: "(rows t ! i) ''PosGain'' = Num (of_int a - of_int b)"
    if "?G = Num (of_int a)" "?P = Num (of_int b)" "\<not> (?dg = Int64 \<and> ?dp = Int64)"
      "\<bar>a\<bar> < 2 ^ 53" "\<bar>b\<bar> < 2 ^ 53" "\<bar>a - b\<bar> < 2 ^ 53" for a b
  proof -
    from that(6) have "round64 (of_int (a - b)) = of_int (a - b)" by (rule round64_of_int)
    with c3 [OF that(1-3)] that(4,5) show ?thesis by (simp add: as_float64_of_int)
  qed
  have c7: "isna ?G \<or> isna ?P \<longrightarrow> (rows t ! i) ''PosGain'' = NaN"
    by (auto simp: pg isna_def)
  have c6: "notna ?G \<and> notna ?P \<longrightarrow> (\<exists>g p. ?G = Num g \<and> ?P = Num p)"
    using g p by (auto simp: notna_def)
  from c1 c2 c3 c4 c5 c6 c7 show ?thesis by blast
qed

text \<open>
  The first row of the example starts second and finishes first, both float64; the
  third has neither a grid position nor a readable position.
\<close>

theorem pos_gain_machine_witness:
  "load_csv parse_example fmt_example results_example
     = Inr (loaded parse_example fmt_example results_example) \<and>
   2 < length (rows (loaded parse_example fmt_example results_example)) \<and>
   (rows (loaded parse_example fmt_example results_example) ! 0) ''Grid_num'' = Num 2 \<and>
   (rows (loaded parse_example fmt_example results_example) ! 0) ''Pos_num'' = Num 1 \<and>
   dtypes (loaded parse_example fmt_example results_example) ''Grid_num'' = Float64 \<and>
   (rows (loaded parse_example fmt_example results_example) ! 0) ''PosGain'' = Num 1 \<and>
   isna ((rows (loaded parse_example fmt_example results_example) ! 2) ''Pos_num'') \<and>
   (rows (loaded parse_example fmt_example results_example) ! 2) ''PosGain'' = NaN"
proof -
  let ?t = "loaded parse_example fmt_example results_example"
  have n: "length (rows ?t) = 3" by (simp add: loaded_len results_example_rows)
  then have n0: "0 < length (rows ?t)" and n2: "2 < length (rows ?t)" by simp_all
  have g0: "(rows ?t ! 0) ''Grid_num'' = Num (of_int 2)"
    using results_example_grid_num n by (simp add: column_of_def list_eq_iff_nth_eq)
  have p0: "(rows ?t ! 0) ''Pos_num'' = Num (of_int 1)"
    using results_example_pos_num n by (simp add: column_of_def list_eq_iff_nth_eq)
  have p2: "(rows ?t ! 2) ''Pos_num'' = NaN"
    using results_example_pos_num n by (simp add: column_of_def list_eq_iff_nth_eq)
  have d: "dtypes ?t ''Grid_num'' = Float64"
    by (simp add: loaded_grid_num_dtype results_example_dtypes numeric_dtype_def)
  from pos_gain_machine [OF results_example_loads n0] g0 p0 d
  have "(rows ?t ! 0) ''PosGain'' = Num (of_int 2 - of_int 1)" by simp
  then have a: "(rows ?t ! 0) ''PosGain'' = Num 1" by simp
  have b: "(rows ?t ! 2) ''PosGain'' = NaN"
    using pos_gain_machine [OF results_example_loads n2] p2 by (simp add: isna_def)
  from results_example_loads n2 g0 p0 p2 d a b show ?thesis by (simp add: isna_def)
qed

text \<open>
  Claim C3 says that with both columns \<^verbatim>\<open>DriverNumber_clean\<close> is the first column's
  value where that is present. In the first row of the example \<^verbatim>\<open>DriverNumber\<close> is the
  int64 \<^verbatim>\<open>2^53 + 1\<close> and \<^verbatim>\<open>DriverNumber.1\<close> is a float64 column: \<^verbatim>\<open>np.where\<close> makes
  a float64 array of the two, and \<^verbatim>\<open>DriverNumber_clean\<close> is \<^verbatim>\<open>2^53\<close>.
\<close>

theorem driver_number_clean_cast_counterexample:
  "load_csv parse_example fmt_example big_numbers_example
     = Inr (loaded parse_example fmt_example big_numbers_example) \<and>
   has_col big_numbers_example ''DriverNumber'' \<and>
   has_col big_numbers_example ''DriverNumber.1'' \<and>
   0 < length (rows (loaded parse_example fmt_example big_numbers_example)) \<and>
   (rows big_numbers_example ! 0) ''DriverNumber'' = Num 9007199254740993 \<and>
   (rows (loaded parse_example fmt_example big_numbers_example) ! 0) ''DriverNumber_clean''
     = Num 9007199254740992"
proof -
  let ?t = "loaded parse_example fmt_example big_numbers_example"
  have n: "0 < length (rows big_numbers_example)" by (simp add: big_numbers_example_rows)
  have s: "(rows big_numbers_example ! 0) ''DriverNumber'' = Num 9007199254740993"
    by (simp add: big_numbers_example_def mk_row_def)
  have r: "round64 9007199254740993 = 9007199254740992" by code_simp
  have "(rows ?t ! 0) ''DriverNumber_clean'' = Num 9007199254740992"
    using n by (simp add: loaded_clean big_numbers_example_cols big_numbers_example_dtypes s
        notna_def as_float64_def r)
  with s n big_numbers_example_loads big_numbers_example_cols show ?thesis
    by (simp add: loaded_len)
qed

text \<open>
  Claim C3, amended. In every row: with both \<^verbatim>\<open>DriverNumber\<close> and \<^verbatim>\<open>DriverNumber.1\<close> in
  the source, \<^verbatim>\<open>DriverNumber_clean\<close> is the first column's value where that is present
  and the second column's value otherwise, converted to the common dtype of the two
  columns: the value is unchanged unless it comes from an int64 column and the other
  column is float64, and then it is unchanged if it is below \<^verbatim>\<open>2^53\<close> in magnitude and
  rounded to the nearest float64 if not. With one of the two columns, it is that
  column's value; with neither, it is missing. A row with \<^verbatim>\<open>DriverNumber\<close> missing and
  \<^verbatim>\<open>DriverNumber.1\<close> = "44" gets "44".
\<close>

theorem driver_number_clean_coalesce:
  assumes "load_csv parse fmt df = Inr t" and "i < length (rows t)"
  shows "length (rows t) = length (rows df) \<and>
         (rows t ! i) ''DriverNumber_clean'' =
           (if has_col df ''DriverNumber'' \<and> has_col df ''DriverNumber.1'' then
              (if notna ((rows df ! i) ''DriverNumber'')
               then astype (dtypes df ''DriverNumber'')
                      (result_type (dtypes df ''DriverNumber'') (dtypes df ''DriverNumber.1''))
                      ((rows df ! i) ''DriverNumber'')
               else astype (dtypes df ''DriverNumber.1'')
                      (result_type (dtypes df ''DriverNumber'') (dtypes df ''DriverNumber.1''))
                      ((rows df ! i) ''DriverNumber.1''))
            else if has_col df ''DriverNumber'' then (rows df ! i) ''DriverNumber''
            else if has_col df ''DriverNumber.1'' then (rows df ! i) ''DriverNumber.1''
            else NaN) \<and>
         (has_col df ''DriverNumber'' \<and> has_col df ''DriverNumber.1'' \<and>
          (dtypes df ''DriverNumber'' \<noteq> Int64 \<or> dtypes df ''DriverNumber.1'' \<noteq> Float64) \<and>
          (dtypes df ''DriverNumber'' \<noteq> Float64 \<or> dtypes df ''DriverNumber.1'' \<noteq> Int64)
            \<longrightarrow> (rows t ! i) ''DriverNumber_clean'' =
                  (if notna ((rows df ! i) ''DriverNumber'') then (rows df ! i) ''DriverNumber''
                   else (rows df ! i) ''DriverNumber.1'')) \<and>
         (\<forall>n. has_col df ''DriverNumber'' \<and> has_col df ''DriverNumber.1'' \<and> \<bar>n\<bar> < 2 ^ 53 \<and>
              (if notna ((rows df ! i) ''DriverNumber'') then (rows df ! i) ''DriverNumber''
               else (rows df ! i) ''DriverNumber.1'') = Num (of_int n)
            \<longrightarrow> (rows t ! i) ''DriverNumber_clean'' = Num (of_int n)) \<and>
         (has_col df ''DriverNumber'' \<and> has_col df ''DriverNumber.1'' \<and>
          (rows df ! i) ''DriverNumber'' = NaN \<and> (rows df ! i) ''DriverNumber.1'' = Str ''44''
            \<longrightarrow> (rows t ! i) ''DriverNumber_clean'' = Str ''44'')"
proof -
  from assms(1) have t: "t = loaded parse fmt df" by (simp add: load_csv_Inr)
  with assms(2) have i: "i < length (rows df)" by (simp add: loaded_len)
  let ?da = "dtypes df ''DriverNumber''" and ?db = "dtypes df ''DriverNumber.1''"
  have same: "astype ?da (result_type ?da ?db) c = c" "astype ?db (result_type ?da ?db) c = c"
    if "?da \<noteq> Int64 \<or> ?db \<noteq> Float64" "?da \<noteq> Float64 \<or> ?db \<noteq> Int64" for c
    using that by (cases ?da; cases ?db; simp add: astype_same)+
  have whole: "astype src dst c = Num (of_int n)"
    if "c = Num (of_int n)" "\<bar>n\<bar> < 2 ^ 53" for src dst c n
    using that(2) unfolding that(1) by (rule astype_of_int)
  from i have v: "(rows t ! i) ''DriverNumber_clean'' =
           (if has_col df ''DriverNumber'' \<and> has_col df ''DriverNumber.1'' then
              (if notna ((rows df ! i) ''DriverNumber'')
               then astype ?da (result_type ?da ?db) ((rows df ! i) ''DriverNumber'')
               else astype ?db (result_type ?da ?db) ((rows df ! i) ''DriverNumber.1''))
            else if has_col df ''DriverNumber'' then (rows df ! i) ''DriverNumber''
            else if has_col df ''DriverNumber.1'' then (rows df ! i) ''DriverNumber.1''
            else NaN)"
    unfolding t by (rule loaded_clean)
  have l: "length (rows t) = length (rows df)" unfolding t by (rule loaded_len)
  show ?thesis
    unfolding v using l same whole by (auto simp: notna_def)
qed

text \<open>
  The first row of the example is the row of the claim; the second has the number 9
  in the first column, a float64 column beside a column of texts.
\<close>

theorem driver_number_clean_coalesce_witness:
  "load_csv parse_example fmt_example results_example
     = Inr (loaded parse_example fmt_example results_example) \<and>
   1 < length (rows (loaded parse_example fmt_example results_example)) \<and>
   has_col results_example ''DriverNumber'' \<and> has_col results_example ''DriverNumber.1'' \<and>
   (rows results_example ! 0) ''DriverNumber'' = NaN \<and>
   (rows results_example ! 0) ''DriverNumber.1'' = Str ''44'' \<and>
   (rows (loaded parse_example fmt_example results_example) ! 0) ''DriverNumber_clean'' = Str ''44'' \<and>
   (rows results_example ! 1) ''DriverNumber'' = Num 9 \<and>
   (rows (loaded parse_example fmt_example results_example) ! 1) ''DriverNumber_clean'' = Num 9"
proof -
  let ?t = "loaded parse_example fmt_example results_example"
  have n: "length (rows ?t) = 3" by (simp add: loaded_len results_example_rows)
  then have n0: "0 < length (rows ?t)" and n1: "1 < length (rows ?t)" by simp_all
  have c: "has_col results_example ''DriverNumber''" "has_col results_example ''DriverNumber.1''"
    by (simp_all add: has_col_def results_example_def)
  have s: "(rows results_example ! 0) ''DriverNumber'' = NaN"
    "(rows results_example ! 0) ''DriverNumber.1'' = Str ''44''"
    "(rows results_example ! 1) ''DriverNumber'' = Num 9"
    by (simp_all add: results_example_def mk_row_def)
  from driver_number_clean_coalesce [OF results_example_loads n0] c s(1,2)
  have a: "(rows ?t ! 0) ''DriverNumber_clean'' = Str ''44''" by blast
  from driver_number_clean_coalesce [OF results_example_loads n1] c s(3)
  have b: "(rows ?t ! 1) ''DriverNumber_clean'' = Num 9"
    by (simp add: results_example_dtypes notna_def)
  from results_example_loads n1 c s a b show ?thesis by simp
qed

text \<open>
  Claim C4 says that \<^verbatim>\<open>DriverNumber_clean\<close> is populated in every row as soon as one of
  the two source columns exists. The third row of the example has both columns and a
  value in neither: its \<^verbatim>\<open>DriverNumber_clean\<close> is missing.
\<close>

theorem driver_number_clean_missing_counterexample:
  "has_col results_example ''DriverNumber'' \<and> has_col results_example ''DriverNumber.1'' \<and>
   load_csv parse_example fmt_example results_example
     = Inr (loaded parse_example fmt_example results_example) \<and>
   2 < length (rows (loaded parse_example fmt_example results_example)) \<and>
   \<not> notna ((rows (loaded parse_example fmt_example results_example) ! 2) ''DriverNumber_clean'')"
proof -
  have "(rows (loaded parse_example fmt_example results_example) ! 2) ''DriverNumber_clean'' = NaN"
    by (simp add: loaded_clean results_example_rows)
       (simp add: results_example_def mk_row_def has_col_def notna_def)
  with results_example_loads show ?thesis
    by (simp add: loaded_len results_example_rows notna_def)
       (simp add: has_col_def results_example_def)
qed

text \<open>
  Claim C4, amended. \<^verbatim>\<open>DriverNumber_clean\<close> is populated in a row exactly when one of
  the two source columns exists and has a value in that row; if neither column exists
  it is missing in every row.
\<close>

theorem driver_number_clean_populated:
  assumes "load_csv parse fmt df = Inr t" and "i < length (rows t)"
  shows "(notna ((rows t ! i) ''DriverNumber_clean'') \<longleftrightarrow>
            (has_col df ''DriverNumber'' \<and> notna ((rows df ! i) ''DriverNumber'')) \<or>
            (has_col df ''DriverNumber.1'' \<and> notna ((rows df ! i) ''DriverNumber.1''))) \<and>
         (\<not> has_col df ''DriverNumber'' \<and> \<not> has_col df ''DriverNumber.1''
            \<longrightarrow> isna ((rows t ! i) ''DriverNumber_clean''))"
proof -
  from assms(1) have t: "t = loaded parse fmt df" by (simp add: load_csv_Inr)
  with assms(2) have i: "i < length (rows df)" by (simp add: loaded_len)
  then show ?thesis unfolding t by (auto simp: loaded_clean notna_astype) (auto simp: notna_def isna_def)
qed

text \<open>
  The first row of the example has a value in \<^verbatim>\<open>DriverNumber.1\<close>.
\<close>

theorem driver_number_clean_populated_witness:
  "load_csv parse_example fmt_example results_example
     = Inr (loaded parse_example fmt_example results_example) \<and>
   0 < length (rows (loaded parse_example fmt_example results_example)) \<and>
   has_col results_example ''DriverNumber.1'' \<and>
   notna ((rows results_example ! 0) ''DriverNumber.1'') \<and>
   notna ((rows (loaded parse_example fmt_example results_example) ! 0) ''DriverNumber_clean'')"
proof -
  let ?t = "loaded parse_example fmt_example results_example"
  have n0: "0 < length (rows ?t)" by (simp add: loaded_len results_example_rows)
  have h: "has_col results_example ''DriverNumber.1'' \<and>
           notna ((rows results_example ! 0) ''DriverNumber.1'')"
    by (simp add: has_col_def results_example_def mk_row_def notna_def)
  with driver_number_clean_populated [OF results_example_loads n0]
  have "notna ((rows ?t ! 0) ''DriverNumber_clean'')" by blast
  with results_example_loads n0 h show ?thesis by simp
qed

text \<open>
  Claim C9. A table that \<^verbatim>\<open>load_csv\<close> returns has a \<^verbatim>\<open>Points\<close> column, and in every
  row it holds a number: a source value that is missing, or a text that does not read
  as a number, has become zero, and every other value is the number read.
\<close>

theorem points_zero_filled:
  assumes "load_csv parse fmt df = Inr t" and "i < length (rows t)"
  shows "has_col t ''Points'' \<and>
         (\<exists>x. (rows t ! i) ''Points'' = Num x) \<and>
         ((rows df ! i) ''Points'' = NaN \<longrightarrow> (rows t ! i) ''Points'' = Num 0) \<and>
         (\<forall>s. (rows df ! i) ''Points'' = Str s \<and> parse s = None
            \<longrightarrow> (rows t ! i) ''Points'' = Num 0) \<and>
         (\<forall>s x. (rows df ! i) ''Points'' = Str s \<and> parse s = Some x
            \<longrightarrow> (rows t ! i) ''Points'' = Num x) \<and>
         (\<forall>x. (rows df ! i) ''Points'' = Num x \<longrightarrow> (rows t ! i) ''Points'' = Num x)"
proof -
  from assms(1) have t: "t = loaded parse fmt df" by (simp add: load_csv_Inr)
  with assms(2) have i: "i < length (rows df)" by (simp add: loaded_len)
  have "\<exists>x. fillna 0 (to_numeric parse c) = Num x" for c
    using to_numeric_cases [of parse c] by auto
  with i show ?thesis unfolding t by (auto simp: loaded_points loaded_cols)
qed

text \<open>
  In the example ``25'' is read as 25, and ``DSQ'' is no number and becomes 0.
\<close>

theorem points_zero_filled_witness:
  "load_csv parse_example fmt_example results_example
     = Inr (loaded parse_example fmt_example results_example) \<and>
   1 < length (rows (loaded parse_example fmt_example results_example)) \<and>
   (rows results_example ! 0) ''Points'' = Str ''25'' \<and> parse_example ''25'' = Some 25 \<and>
   (rows (loaded parse_example fmt_example results_example) ! 0) ''Points'' = Num 25 \<and>
   (rows results_example ! 1) ''Points'' = Str ''DSQ'' \<and> parse_example ''DSQ'' = None \<and>
   (rows (loaded parse_example fmt_example results_example) ! 1) ''Points'' = Num 0"
proof -
  let ?t = "loaded parse_example fmt_example results_example"
  have n: "length (rows ?t) = 3" by (simp add: loaded_len results_example_rows)
  then have n0: "0 < length (rows ?t)" and n1: "1 < length (rows ?t)" by simp_all
  have s0: "(rows results_example ! 0) ''Points'' = Str ''25'' \<and> parse_example ''25'' = Some 25"
    by (simp add: results_example_def mk_row_def parse_example_def)
  have s1: "(rows results_example ! 1) ''Points'' = Str ''DSQ'' \<and> parse_example ''DSQ'' = None"
    by (simp add: results_example_def mk_row_def parse_example_def)
  from points_zero_filled [OF results_example_loads n0] s0
  have a: "(rows ?t ! 0) ''Points'' = Num 25" by blast
  from points_zero_filled [OF results_example_loads n1] s1
  have b: "(rows ?t ! 1) ''Points'' = Num 0" by blast
  from results_example_loads n1 s0 s1 a b show ?thesis by simp
qed

section \<open>Properties of the filters\<close>

lemma has_col_keep_rows: "has_col (keep_rows p df) c = has_col df c"
  by (simp add: keep_rows_def has_col_def)

lemma columns_keep_rows: "columns (keep_rows p df) = columns df"
  by (simp add: keep_rows_def)

lemma rows_keep_rows: "rows (keep_rows p df) = filter p (rows df)"
  by (simp add: keep_rows_def)

lemma keep_rows_twice: "keep_rows p (keep_rows q df) = keep_rows (\<lambda>r. q r \<and> p r) df"
  by (simp add: keep_rows_def)

lemma keep_rows_all: "keep_rows (\<lambda>r. True) df = df"
  by (simp add: keep_rows_def)

lemma step_pred_columns: "columns d = columns df \<Longrightarrow> step_pred sel d s = step_pred sel df s"
  by (cases s) (simp_all add: has_col_def fun_eq_iff)

lemma apply_step_keeps:
  assumes "has_col d ''Season''" "has_col d ''RaceNumber''" "has_col d ''IsDNF''"
    "has_col d ''Points''"
  shows "apply_step sel s d = Inr (keep_rows (step_pred sel d s) d)"
  using assms by (cases s) (simp_all add: isin_filter_def keep_rows_def step_pred.simps [abs_def])

lemma run_steps_keeps:
  assumes "has_col df ''Season''" "has_col df ''RaceNumber''" "has_col df ''IsDNF''"
    "has_col df ''Points''"
  shows "columns d = columns df \<Longrightarrow>
         run_steps sel ss d = Inr (keep_rows (\<lambda>r. \<forall>s \<in> set ss. step_pred sel df s r) d)"
proof (induction ss arbitrary: d)
  case Nil
  then show ?case by (simp add: keep_rows_all)
next
  case (Cons s ss)
  from Cons.prems assms have cols: "has_col d ''Season''" "has_col d ''RaceNumber''"
    "has_col d ''IsDNF''" "has_col d ''Points''"
    by (simp_all add: has_col_def)
  have step: "apply_step sel s d = Inr (keep_rows (step_pred sel df s) d)"
    using apply_step_keeps [OF cols] step_pred_columns [OF Cons.prems] by simp
  have "columns (keep_rows (step_pred sel df s) d) = columns df"
    using Cons.prems by (simp add: columns_keep_rows)
  from Cons.IH [OF this] step show ?case
    by (simp add: keep_rows_twice)
qed

lemma step_cases: "(\<forall>s. P s) \<longleftrightarrow> P BySeason \<and> P ByRace \<and> P ByTeam \<and> P ByDriver \<and> P ByDNF \<and> P ByPoints"
proof
  assume r: "P BySeason \<and> P ByRace \<and> P ByTeam \<and> P ByDriver \<and> P ByDNF \<and> P ByPoints"
  show "\<forall>s. P s"
  proof
    fix s from r show "P s" by (cases s) simp_all
  qed
qed simp

lemma passes_all_steps: "passes_all sel df r \<longleftrightarrow> (\<forall>s. step_pred sel df s r)"
  unfolding step_cases by (simp add: passes_all_def)

lemma all_steps: "set [BySeason, ByRace, ByTeam, ByDriver, ByDNF, ByPoints] = UNIV"
proof -
  have "s \<in> set [BySeason, ByRace, ByTeam, ByDriver, ByDNF, ByPoints]" for s
    by (cases s) simp_all
  then show ?thesis by blast
qed

lemma run_steps_Inr:
  "run_steps sel ss d = Inr d' \<Longrightarrow> columns d' = columns d \<and> set (rows d') \<subseteq> set (rows d)"
proof (induction ss arbitrary: d)
  case Nil
  then show ?case by simp
next
  case (Cons s ss)
  from Cons.prems obtain e where e: "apply_step sel s d = Inr e" and r: "run_steps sel ss e = Inr d'"
    by (auto split: sum.splits)
  from e have "columns e = columns d \<and> set (rows e) \<subseteq> set (rows d)"
    by (cases s) (auto simp: isin_filter_def keep_rows_def split: if_splits)
  with Cons.IH [OF r] show ?case by auto
qed

text \<open>
  Claim C7. On a table with the columns that the filters read without a guard
  (\<^verbatim>\<open>Season\<close> and \<^verbatim>\<open>RaceNumber\<close>, which the script has read before, and \<^verbatim>\<open>IsDNF\<close> and
  \<^verbatim>\<open>Points\<close>, which \<^verbatim>\<open>load_csv\<close> writes), running the six filter statements in any
  order gives the table of the source's order, which is the table of the rows that
  pass the conjunction of all predicates; in particular teams then drivers gives what
  drivers then teams gives.
\<close>

theorem filter_order_irrelevant:
  assumes "has_col df ''Season''" "has_col df ''RaceNumber''" "has_col df ''IsDNF''"
    "has_col df ''Points''"
    and "mset ss = mset [BySeason, ByRace, ByTeam, ByDriver, ByDNF, ByPoints]"
  shows "run_steps sel ss df = dff_of sel df \<and>
         dff_of sel df = Inr (keep_rows (passes_all sel df) df) \<and>
         run_steps sel [ByTeam, ByDriver] df = run_steps sel [ByDriver, ByTeam] df"
proof -
  note run = run_steps_keeps [OF assms(1-4) refl, of sel]
  from assms(5) have "set ss = set [BySeason, ByRace, ByTeam, ByDriver, ByDNF, ByPoints]"
    by (rule mset_eq_setD)
  then have ss: "set ss = UNIV" by (simp only: all_steps)
  have a: "run_steps sel ss df = Inr (keep_rows (passes_all sel df) df)"
    unfolding run ss by (simp add: passes_all_steps [abs_def])
  have b: "dff_of sel df = Inr (keep_rows (passes_all sel df) df)"
    unfolding dff_of_def run all_steps by (simp add: passes_all_steps [abs_def])
  have "(\<lambda>r. \<forall>s \<in> set [ByTeam, ByDriver]. step_pred sel df s r)
        = (\<lambda>r. \<forall>s \<in> set [ByDriver, ByTeam]. step_pred sel df s r)"
    by auto
  then have c: "run_steps sel [ByTeam, ByDriver] df = run_steps sel [ByDriver, ByTeam] df"
    unfolding run by simp
  from a b c show ?thesis by simp
qed

text \<open>
  On the loaded example, season 2021 with Mercedes and Alpine and without DNFs leaves
  one row, whatever the order of the statements.
\<close>

theorem filter_order_irrelevant_witness:
  "has_col (loaded parse_example fmt_example results_example) ''Season'' \<and>
   has_col (loaded parse_example fmt_example results_example) ''RaceNumber'' \<and>
   has_col (loaded parse_example fmt_example results_example) ''IsDNF'' \<and>
   has_col (loaded parse_example fmt_example results_example) ''Points'' \<and>
   mset [ByPoints, ByDNF, ByDriver, ByTeam, ByRace, BySeason]
     = mset [BySeason, ByRace, ByTeam, ByDriver, ByDNF, ByPoints] \<and>
   run_steps selection_example [ByPoints, ByDNF, ByDriver, ByTeam, ByRace, BySeason]
       (loaded parse_example fmt_example results_example)
     = dff_of selection_example (loaded parse_example fmt_example results_example) \<and>
   map_sum id (column_of ''Driver'')
       (dff_of selection_example (loaded parse_example fmt_example results_example))
     = Inr [Str ''HAM'']"
proof -
  let ?t = "loaded parse_example fmt_example results_example"
  have c: "has_col ?t ''Season''" "has_col ?t ''RaceNumber''" "has_col ?t ''IsDNF''"
    "has_col ?t ''Points''"
    by (simp_all add: loaded_cols, simp_all add: has_col_def results_example_def)
  have m: "mset [ByPoints, ByDNF, ByDriver, ByTeam, ByRace, BySeason]
             = mset [BySeason, ByRace, ByTeam, ByDriver, ByDNF, ByPoints]"
    by simp
  note fo = filter_order_irrelevant [OF c m, of selection_example]
  have vals: "(rows ?t ! i) ''Season'' = [Num 2021, Num 2021, Num 2021] ! i"
    "(rows ?t ! i) ''Constructor'' = [Str ''Mercedes'', Str ''Haas'', Str ''Alpine''] ! i"
    "(rows ?t ! i) ''Driver'' = [Str ''HAM'', Str ''nan'', Str ''ALO''] ! i"
    "(rows ?t ! i) ''IsDNF'' = [Bool False, Bool True, Bool True] ! i" if "i < 3" for i
    using that results_example_season results_example_constructor results_example_driver
      results_example_is_dnf by (simp_all add: column_nth)
  have "column_of ''Driver'' (keep_rows (passes_all selection_example ?t) ?t) = [Str ''HAM'']"
    unfolding column_of_def rows_keep_rows
    by (subst results_example_loaded_rows)
       (simp add: passes_all_def selection_example_def vals)
  with fo c m show ?thesis by simp
qed

section \<open>Properties of the aggregates\<close>

subsection \<open>Machine sums\<close>

lemma wrap64_sum_list: "wrap64 (sum_list (map wrap64 ns)) = wrap64 (sum_list ns)"
proof (induction ns)
  case Nil
  then show ?case by simp
next
  case (Cons n ns)
  have "wrap64 (wrap64 n + sum_list (map wrap64 ns)) = wrap64 (n + sum_list (map wrap64 ns))"
    by (rule wrap64_cong)
  also have "\<dots> = wrap64 (sum_list (map wrap64 ns) + n)" by (simp only: add.commute)
  also have "\<dots> = wrap64 (wrap64 (sum_list (map wrap64 ns)) + n)"
    by (simp only: wrap64_cong)
  also have "\<dots> = wrap64 (wrap64 (sum_list ns) + n)" by (simp only: Cons.IH)
  also have "\<dots> = wrap64 (sum_list ns + n)" by (simp only: wrap64_cong)
  finally show ?case by (simp add: add.commute)
qed

lemma floor_int64_sum: "\<lfloor>int64_sum xs\<rfloor> = wrap64 (sum_list (map floor xs))"
  by (simp add: int64_sum_def)

lemma int64_sum_exact:
  assumes "\<forall>x \<in> set xs. 0 \<le> x \<and> of_int \<lfloor>x\<rfloor> = x" and "sum_list xs < 2 ^ 63"
  shows "int64_sum xs = sum_list xs"
proof -
  from assms(1) have m: "map (\<lambda>x. rat_of_int \<lfloor>x\<rfloor>) xs = xs" by (simp add: map_idI)
  have "rat_of_int (sum_list (map floor xs)) = sum_list (map (\<lambda>x. rat_of_int \<lfloor>x\<rfloor>) xs)"
    by (induction xs) simp_all
  with m have e: "rat_of_int (sum_list (map floor xs)) = sum_list xs" by simp
  from assms(1) have "0 \<le> sum_list (map floor xs)" by (intro sum_list_nonneg) auto
  moreover from e assms(2) have "rat_of_int (sum_list (map floor xs)) < rat_of_int (2 ^ 63)"
    by simp
  then have "sum_list (map floor xs) < 2 ^ 63" by (simp only: of_int_less_iff)
  ultimately have "wrap64 (sum_list (map floor xs)) = sum_list (map floor xs)"
    by (intro wrap64_id) simp_all
  with e show ?thesis by (simp add: int64_sum_def)
qed

lemma sum_list_values_of:
  fixes h :: "rat \<Rightarrow> 'a::comm_monoid_add"
  shows "sum_list (map h (values_of cs))
         = (\<Sum>c\<leftarrow>cs. case cell_value c of Some x \<Rightarrow> h x | None \<Rightarrow> 0)"
  by (induction cs) (simp_all add: values_of_def List.map_filter_simps split: option.splits)

lemma set_values_of: "set (values_of cs) = {x. \<exists>c \<in> set cs. cell_value c = Some x}"
  by (induction cs) (auto simp: values_of_def List.map_filter_simps split: option.splits)

lemma sum_list_mset_cong:
  fixes g :: "'a \<Rightarrow> 'b::comm_monoid_add"
  shows "mset ys = mset xs \<Longrightarrow> sum_list (map g ys) = sum_list (map g xs)"
proof -
  assume "mset ys = mset xs"
  then have "mset (map g ys) = mset (map g xs)" by simp
  then show ?thesis by (metis sum_mset_sum_list)
qed

lemma sum_list_filter_le:
  fixes f :: "'a \<Rightarrow> rat"
  shows "\<forall>x \<in> set xs. 0 \<le> f x \<Longrightarrow> sum_list (map f (filter P xs)) \<le> sum_list (map f xs)"
  by (induction xs) (auto intro: add_increasing)

lemma round64_numeral: "numeral n < (2::int) ^ 53 \<Longrightarrow> round64 (numeral n) = numeral n"
  using round64_of_int [of "numeral n"] by simp

subsection \<open>Grouping\<close>

lemma set_map_filter_fst: "set (List.map_filter fst kvs) = {k. Some k \<in> fst ` set kvs}"
  by (induction kvs) (auto simp: List.map_filter_simps split: option.splits)

lemma group_sum_keys:
  "map fst (group_sum rank tot kvs) = sort_key rank (remdups (List.map_filter fst kvs))"
  by (simp add: group_sum_def comp_def)

lemma group_sum_key_set: "fst ` set (group_sum rank tot kvs) = {k. Some k \<in> fst ` set kvs}"
proof -
  have "fst ` set (group_sum rank tot kvs) = set (map fst (group_sum rank tot kvs))" by simp
  also have "\<dots> = {k. Some k \<in> fst ` set kvs}"
    unfolding group_sum_keys by (simp add: set_map_filter_fst)
  finally show ?thesis .
qed



lemma group_sum_value:
  "(k, p) \<in> set (group_sum rank tot kvs) \<Longrightarrow>
   p = tot (values_of (map snd (filter (\<lambda>kv. fst kv = Some k) kvs)))"
  by (auto simp: group_sum_def)

lemma sum_list_no_key:
  fixes a :: "'b::comm_monoid_add"
  shows "k0 \<notin> set ks \<Longrightarrow> (\<Sum>k\<leftarrow>ks. if k0 = k then a else 0) = 0"
  by (induction ks) auto

lemma sum_list_one_key:
  fixes a :: "'b::comm_monoid_add"
  shows "distinct ks \<Longrightarrow> k0 \<in> set ks \<Longrightarrow> (\<Sum>k\<leftarrow>ks. if k0 = k then a else 0) = a"
  by (induction ks) (auto simp: sum_list_no_key)

lemma sum_list_by_key:
  fixes f :: "'a \<Rightarrow> 'b::comm_monoid_add"
  assumes "distinct ks" and "\<forall>x \<in> set xs. key x \<in> set ks"
  shows "(\<Sum>k\<leftarrow>ks. \<Sum>x\<leftarrow>filter (\<lambda>x. key x = k) xs. f x) = (\<Sum>x\<leftarrow>xs. f x)"
  using assms(2)
proof (induction xs)
  case Nil
  then show ?case by (simp add: sum_list_0)
next
  case (Cons x xs)
  have "(\<Sum>k\<leftarrow>ks. \<Sum>y\<leftarrow>filter (\<lambda>y. key y = k) (x # xs). f y)
        = (\<Sum>k\<leftarrow>ks. (if key x = k then f x else 0) + (\<Sum>y\<leftarrow>filter (\<lambda>y. key y = k) xs. f y))"
    by (intro arg_cong [where f = sum_list] map_cong) auto
  also have "\<dots> = (\<Sum>k\<leftarrow>ks. if key x = k then f x else 0)
                  + (\<Sum>k\<leftarrow>ks. \<Sum>y\<leftarrow>filter (\<lambda>y. key y = k) xs. f y)"
    by (simp add: sum_list_addf)
  also have "(\<Sum>k\<leftarrow>ks. if key x = k then f x else 0) = f x"
    using assms(1) Cons.prems by (intro sum_list_one_key) auto
  also have "(\<Sum>k\<leftarrow>ks. \<Sum>y\<leftarrow>filter (\<lambda>y. key y = k) xs. f y) = (\<Sum>y\<leftarrow>xs. f y)"
    using Cons by simp
  finally show ?case by simp
qed

text \<open>
  The groups split the rows that have a key: a sum over all groups of a sum over the
  values of a group is the sum over the values of the keyed rows.
\<close>

lemma group_sum_partition:
  fixes h :: "rat \<Rightarrow> 'b::comm_monoid_add"
  shows "(\<Sum>k\<leftarrow>map fst (group_sum rank tot kvs).
            sum_list (map h (values_of (map snd (filter (\<lambda>kv. fst kv = Some k) kvs)))))
         = sum_list (map h (values_of (map snd (filter (\<lambda>kv. fst kv \<noteq> None) kvs))))"
proof -
  let ?ks = "sort_key rank (remdups (List.map_filter fst kvs))"
  let ?xs = "filter (\<lambda>kv. fst kv \<noteq> None) kvs"
  let ?f = "\<lambda>kv. case cell_value (snd kv) of Some x \<Rightarrow> h x | None \<Rightarrow> 0"
  have d: "distinct (map Some ?ks)" by (simp add: distinct_map)
  have m: "\<forall>kv \<in> set ?xs. fst kv \<in> set (map Some ?ks)"
  proof
    fix kv assume kv: "kv \<in> set ?xs"
    then obtain k where k: "fst kv = Some k" by auto
    with kv have "k \<in> set (List.map_filter fst kvs)"
      unfolding set_map_filter_fst by (metis (mono_tags) filter_is_subset image_eqI mem_Collect_eq subsetD)
    with k show "fst kv \<in> set (map Some ?ks)" by simp
  qed
  have same: "filter (\<lambda>kv. fst kv = k) ?xs = filter (\<lambda>kv. fst kv = k) kvs"
    if "k \<in> set (map Some ?ks)" for k
  proof -
    from that obtain y where "k = Some y" by auto
    then show ?thesis by (auto intro: filter_cong)
  qed
  have "(\<Sum>k\<leftarrow>map fst (group_sum rank tot kvs).
            sum_list (map h (values_of (map snd (filter (\<lambda>kv. fst kv = Some k) kvs)))))
        = (\<Sum>k\<leftarrow>map Some ?ks. \<Sum>kv\<leftarrow>filter (\<lambda>kv. fst kv = k) kvs. ?f kv)"
    by (simp add: group_sum_keys sum_list_values_of comp_def)
  also have "\<dots> = (\<Sum>k\<leftarrow>map Some ?ks. \<Sum>kv\<leftarrow>filter (\<lambda>kv. fst kv = k) ?xs. ?f kv)"
    by (rule arg_cong [where f = sum_list], rule map_cong [OF refl], simp only: same)
  also have "\<dots> = (\<Sum>kv\<leftarrow>?xs. ?f kv)"
    using d m by (rule sum_list_by_key)
  also have "\<dots> = sum_list (map h (values_of (map snd ?xs)))"
    by (simp add: sum_list_values_of comp_def)
  finally show ?thesis .
qed

lemma map_snd_group_sum:
  "map snd (group_sum rank tot kvs)
   = map (\<lambda>k. tot (values_of (map snd (filter (\<lambda>kv. fst kv = Some k) kvs))))
       (map fst (group_sum rank tot kvs))"
  by (simp add: group_sum_def comp_def)

text \<open>In int64 the sums of the groups add up to the sum of the keyed rows.\<close>

lemma group_sum_int64_total:
  "int64_sum (map snd (group_sum rank int64_sum kvs))
   = int64_sum (values_of (map snd (filter (\<lambda>kv. fst kv \<noteq> None) kvs)))"
proof -
  let ?g = "group_sum rank int64_sum kvs"
  let ?v = "\<lambda>k. values_of (map snd (filter (\<lambda>kv. fst kv = Some k) kvs))"
  have "map floor (map snd ?g) = map wrap64 (map (\<lambda>k. sum_list (map floor (?v k))) (map fst ?g))"
    by (subst map_snd_group_sum) (simp add: comp_def floor_int64_sum)
  then have "wrap64 (sum_list (map floor (map snd ?g)))
             = wrap64 (\<Sum>k\<leftarrow>map fst ?g. sum_list (map floor (?v k)))"
    by (simp only: wrap64_sum_list)
  also have "(\<Sum>k\<leftarrow>map fst ?g. sum_list (map floor (?v k)))
             = sum_list (map floor (values_of (map snd (filter (\<lambda>kv. fst kv \<noteq> None) kvs))))"
    by (rule group_sum_partition)
  finally have e: "wrap64 (sum_list (map floor (map snd ?g)))
        = wrap64 (sum_list (map floor (values_of (map snd (filter (\<lambda>kv. fst kv \<noteq> None) kvs)))))" .
  have "int64_sum (map snd ?g) = of_int (wrap64 (sum_list (map floor (map snd ?g))))"
    by (rule int64_sum_def)
  also have "\<dots> = of_int (wrap64 (sum_list (map floor
                (values_of (map snd (filter (\<lambda>kv. fst kv \<noteq> None) kvs))))))"
    by (simp only: e)
  also have "\<dots> = int64_sum (values_of (map snd (filter (\<lambda>kv. fst kv \<noteq> None) kvs)))"
    by (rule int64_sum_def [symmetric])
  finally show ?thesis .
qed

subsection \<open>Sorting in descending order\<close>

lemma is_sort_desc_exists: "is_sort_desc f xs (rev (sort_key f xs))"
proof -
  have "sorted (map f (sort_key f xs))" by (rule sorted_sort_key)
  then have "sorted_wrt (\<lambda>a b. f a \<le> f b) (sort_key f xs)" by (simp add: sorted_map)
  then show ?thesis by (simp add: is_sort_desc_def sorted_wrt_rev)
qed

lemma is_sort_desc_unique:
  assumes "is_sort_desc f xs ys" and "is_sort_desc f xs zs" and "distinct (map f xs)"
  shows "ys = zs"
proof -
  from assms(1,2) have m: "mset ys = mset xs" "mset zs = mset xs"
    and s: "sorted_wrt (\<lambda>a b. f b \<le> f a) ys" "sorted_wrt (\<lambda>a b. f b \<le> f a) zs"
    by (simp_all add: is_sort_desc_def)
  from m have mm: "mset (map f ys) = mset (map f xs)" "mset (map f zs) = mset (map f xs)"
    by simp_all
  with assms(3) have d: "distinct (map f ys)" "distinct (map f zs)"
    by (metis mset_eq_imp_distinct_iff)+
  from s have "sorted (rev (map f ys))" "sorted (rev (map f zs))"
    by (simp_all add: sorted_wrt_rev sorted_wrt_map rev_map [symmetric])
  moreover from mm have "set (rev (map f ys)) = set (rev (map f zs))"
    by (metis mset_eq_setD set_rev)
  ultimately have "rev (map f ys) = rev (map f zs)"
    using d by (intro sorted_distinct_set_unique) simp_all
  then have e: "map f ys = map f zs" by simp
  from assms(3) have "inj_on f (set xs)" by (simp add: distinct_map)
  moreover from m have "set ys = set xs" "set zs = set xs" by (metis mset_eq_setD)+
  ultimately have "inj_on f (set ys \<union> set zs)" by simp
  with e show ?thesis by (rule map_inj_on)
qed

subsection \<open>Grouping a loaded table by driver or team\<close>

lemma loaded_text_rows:
  assumes "has_col df c" and "c = ''Driver'' \<or> c = ''Constructor''"
    and "r \<in> set (rows (loaded parse fmt df))"
  shows "\<exists>s. r c = Str s"
proof -
  from assms(3) obtain i where i: "i < length (rows df)" and r: "r = rows (loaded parse fmt df) ! i"
    by (auto simp: in_set_conv_nth loaded_len)
  from assms(1,2) i show ?thesis
    unfolding r by (auto simp: loaded_driver loaded_constructor)
qed

lemma groupby_sum_Inr:
  "has_col df c \<Longrightarrow> has_col df v \<Longrightarrow>
   groupby_sum gsum c v df
   = Inr (group_sum cell_rank (machine_sum gsum (dtypes df v))
            (map (\<lambda>r. (key1 c r, r v)) (rows df)))"
  by (simp add: groupby_sum_def)

lemma groupby_sum_InrD:
  "groupby_sum gsum c v df = Inr g \<Longrightarrow>
   has_col df c \<and> has_col df v \<and>
   g = group_sum cell_rank (machine_sum gsum (dtypes df v)) (map (\<lambda>r. (key1 c r, r v)) (rows df))"
  by (auto simp: groupby_sum_def split: if_splits)

lemma groupby_sum_keys:
  "groupby_sum gsum c v df = Inr g \<Longrightarrow>
   fst ` set g = {k. notna k \<and> k \<in> (\<lambda>r. r c) ` set (rows df)}"
  by (drule groupby_sum_InrD) (auto simp: group_sum_key_set key1_def image_iff split: if_splits)

lemma run_steps_dtypes: "run_steps sel ss d = Inr d' \<Longrightarrow> dtypes d' = dtypes d"
proof (induction ss arbitrary: d)
  case Nil
  then show ?case by simp
next
  case (Cons s ss)
  from Cons.prems obtain e where e: "apply_step sel s d = Inr e" and r: "run_steps sel ss e = Inr d'"
    by (auto split: sum.splits)
  from e have "dtypes e = dtypes d"
    by (cases s) (auto simp: isin_filter_def keep_rows_def split: if_splits)
  with Cons.IH [OF r] show ?case by simp
qed

lemma dff_of_Inr:
  "dff_of sel t = Inr dff \<Longrightarrow> columns dff = columns t \<and> set (rows dff) \<subseteq> set (rows t)"
  unfolding dff_of_def by (rule run_steps_Inr)

lemma dff_of_dtypes: "dff_of sel t = Inr dff \<Longrightarrow> dtypes dff = dtypes t"
  unfolding dff_of_def by (rule run_steps_dtypes)

lemma dff_of_no_selection:
  assumes "has_col df ''Season''" "has_col df ''RaceNumber''" "has_col df ''IsDNF''"
    "has_col df ''Points''"
  shows "dff_of no_selection df = Inr df"
proof -
  have "run_steps no_selection [BySeason, ByRace, ByTeam, ByDriver, ByDNF, ByPoints] df
        = Inr (keep_rows (\<lambda>r. \<forall>s \<in> set [BySeason, ByRace, ByTeam, ByDriver, ByDNF, ByPoints].
                 step_pred no_selection df s r) df)"
    using assms by (intro run_steps_keeps) simp_all
  then show ?thesis
    by (simp add: dff_of_def no_selection_def keep_rows_all)
qed




subsection \<open>Sums that the machine adds exactly\<close>

lemma in_grid_nonneg: "in_grid dt x \<Longrightarrow> 0 \<le> x"
  by (simp add: in_grid_def)

lemma in_grid_Ints: "in_grid dt x \<longleftrightarrow> 0 \<le> x \<and> (if dt = Int64 then x else 2 * x) \<in> \<int>"
  by (auto simp: in_grid_def Ints_def)

lemma in_grid_zero: "in_grid dt 0"
  by (simp add: in_grid_def)

lemma in_grid_add: "in_grid dt x \<Longrightarrow> in_grid dt y \<Longrightarrow> in_grid dt (x + y)"
  unfolding in_grid_Ints by (auto simp: distrib_left)

lemma in_grid_sum_list: "\<forall>x \<in> set xs. in_grid dt x \<Longrightarrow> in_grid dt (sum_list xs)"
  by (induction xs) (simp_all add: in_grid_zero in_grid_add)

lemma round64_half:
  assumes "in_grid Float64 x" and "x < 2 ^ 52"
  shows "round64 x = x"
proof -
  from assms(1) have x: "0 \<le> x" "of_int \<lfloor>2 * x\<rfloor> = 2 * x" by (simp_all add: in_grid_def)
  have "x = of_int \<lfloor>2 * x\<rfloor> * 2 powi (- 1)" by (simp add: x(2) power_int_minus)
  moreover have "\<bar>\<lfloor>2 * x\<rfloor>\<bar> < 2 ^ 53"
  proof -
    from x(1) have "0 \<le> \<lfloor>2 * x\<rfloor>" by simp
    moreover from assms(2) have "2 * x < 2 ^ 53" by simp
    then have "\<lfloor>2 * x\<rfloor> < 2 ^ 53" by (simp add: floor_less_iff)
    ultimately show ?thesis by simp
  qed
  ultimately show ?thesis by (intro round64_exact [where m = "\<lfloor>2 * x\<rfloor>" and k = "- 1"]) simp_all
qed

lemma naive_sum_snoc: "naive_sum (xs @ [x]) = round64 (naive_sum xs + x)"
  by (simp add: naive_sum_def)

lemma naive_sum_exact: "exact_sums naive_sum"
proof -
  have "naive_sum xs = sum_list xs"
    if "\<forall>x \<in> set xs. in_grid Float64 x" "sum_list xs < 2 ^ 52" for xs
    using that
  proof (induction xs rule: rev_induct)
    case Nil
    then show ?case by (simp add: naive_sum_def)
  next
    case (snoc x xs)
    from snoc.prems have x: "0 \<le> x" by (auto dest: in_grid_nonneg)
    with snoc.prems have "sum_list xs < 2 ^ 52" by simp
    with snoc have ih: "naive_sum xs = sum_list xs" by simp
    from snoc.prems(1) have "in_grid Float64 (sum_list (xs @ [x]))"
      by (intro in_grid_sum_list) simp
    then have "round64 (sum_list (xs @ [x])) = sum_list (xs @ [x])"
      using snoc.prems(2) by (rule round64_half)
    then show ?case by (simp add: naive_sum_snoc ih)
  qed
  then show ?thesis
    by (simp add: exact_sums_def points_in_range_def sum_limit_def list_all_iff)
qed

lemma machine_sum_exact:
  assumes "dt \<noteq> Int64 \<longrightarrow> exact_sums fsum"
    and "\<forall>x \<in> set xs. in_grid dt x" and "sum_list xs < sum_limit dt"
  shows "machine_sum fsum dt xs = sum_list xs"
proof (cases "dt = Int64")
  case True
  with assms(2,3) show ?thesis
    by (simp add: machine_sum_def sum_limit_def in_grid_def int64_sum_exact)
next
  case False
  with assms(2) have "\<forall>x \<in> set xs. in_grid Float64 x" by (simp add: in_grid_def)
  with assms(1,3) False show ?thesis
    by (simp add: machine_sum_def exact_sums_def points_in_range_def sum_limit_def list_all_iff)
qed

text \<open>The sum of the values of some of the rows is at most the sum of all.\<close>

lemma values_of_filter_le:
  assumes "\<forall>x \<in> set (values_of (map snd kvs)). 0 \<le> x"
  shows "sum_list (values_of (map snd (filter Q kvs))) \<le> sum_list (values_of (map snd kvs))"
proof -
  let ?f = "\<lambda>kv. case cell_value (snd kv) of Some x \<Rightarrow> x | None \<Rightarrow> (0::rat)"
  have "\<forall>kv \<in> set kvs. 0 \<le> ?f kv"
    using assms by (auto simp: set_values_of split: option.splits)
  then have "sum_list (map ?f (filter Q kvs)) \<le> sum_list (map ?f kvs)"
    by (rule sum_list_filter_le)
  then show ?thesis
    using sum_list_values_of [of "\<lambda>x. x" "map snd (filter Q kvs)"]
      sum_list_values_of [of "\<lambda>x. x" "map snd kvs"]
    by (simp add: comp_def)
qed

lemma values_of_filter_subset:
  "set (values_of (map snd (filter Q kvs))) \<subseteq> set (values_of (map snd kvs))"
  by (force simp: set_values_of)

text \<open>
  With the values of the rows in range, every group sum is the exact sum of the
  values of the group.
\<close>

lemma group_sum_exact:
  assumes "dt \<noteq> Int64 \<longrightarrow> exact_sums fsum"
    and "points_in_range dt (values_of (map snd kvs))"
  shows "group_sum rank (machine_sum fsum dt) kvs = group_sum rank sum_list kvs"
proof -
  from assms(2) have g: "\<forall>x \<in> set (values_of (map snd kvs)). in_grid dt x"
    and b: "sum_list (values_of (map snd kvs)) < sum_limit dt"
    by (simp_all add: points_in_range_def list_all_iff)
  have "machine_sum fsum dt (values_of (map snd (filter Q kvs)))
        = sum_list (values_of (map snd (filter Q kvs)))" for Q
  proof (rule machine_sum_exact [OF assms(1)])
    show "\<forall>x \<in> set (values_of (map snd (filter Q kvs))). in_grid dt x"
      using g values_of_filter_subset [of Q kvs] by blast
    have "sum_list (values_of (map snd (filter Q kvs))) \<le> sum_list (values_of (map snd kvs))"
      using g by (intro values_of_filter_le) (auto dest: in_grid_nonneg)
    with b show "sum_list (values_of (map snd (filter Q kvs))) < sum_limit dt" by simp
  qed
  then show ?thesis by (simp add: group_sum_def)
qed

lemma group_sum_exact_total:
  "sum_list (map snd (group_sum rank sum_list kvs))
   = sum_list (values_of (map snd (filter (\<lambda>kv. fst kv \<noteq> None) kvs)))"
  using group_sum_partition [where h = "\<lambda>x. x" and tot = sum_list and rank = rank and kvs = kvs]
  by (subst map_snd_group_sum) (simp add: comp_def)

lemma group_sum_exact_in_grid:
  assumes "\<forall>x \<in> set (values_of (map snd kvs)). in_grid dt x"
    and "g \<in> set (group_sum rank sum_list kvs)"
  shows "in_grid dt (snd g)"
proof -
  obtain k p where g: "g = (k, p)" by (cases g)
  with assms(2) have "p = sum_list (values_of (map snd (filter (\<lambda>kv. fst kv = Some k) kvs)))"
    by (simp add: group_sum_value)
  moreover have "in_grid dt (sum_list (values_of (map snd (filter (\<lambda>kv. fst kv = Some k) kvs))))"
    using assms(1) values_of_filter_subset [of "\<lambda>kv. fst kv = Some k" kvs]
    by (intro in_grid_sum_list) blast
  ultimately show ?thesis using g by simp
qed

subsection \<open>The possible rankings\<close>

lemma by_driver_full_results_Inr:
  "groupby_sum gsum ''Driver'' ''Points'' dff = Inr g \<Longrightarrow>
   by_driver_full_results gsum dff = Inr ` {ys. is_sort_desc snd g ys}"
  by (simp add: by_driver_full_results_def)



lemma by_driver_full_results_unique:
  assumes "groupby_sum gsum ''Driver'' ''Points'' dff = Inr g" and "distinct (map snd g)"
  shows "by_driver_full_results gsum dff = {Inr (rev (sort_key snd g))}"
proof -
  have "{ys. is_sort_desc snd g ys} = {rev (sort_key snd g)}"
    using is_sort_desc_exists [of snd g] is_sort_desc_unique [OF _ _ assms(2)] by blast
  with assms(1) show ?thesis by (simp add: by_driver_full_results_Inr)
qed

lemma mset_pair:
  assumes "mset ys = {#a, b#}"
  shows "ys = [a, b] \<or> ys = [b, a]"
proof -
  from assms have "size (mset ys) = 2" by simp
  then have "length ys = 2" by simp
  then obtain x y where ys: "ys = [x, y]"
    by (metis (no_types) One_nat_def Suc_1 length_0_conv length_Suc_conv)
  from assms show ?thesis unfolding ys by (auto simp: add_eq_conv_ex)
qed

lemma by_driver_full_results_tie:
  assumes "groupby_sum gsum ''Driver'' ''Points'' dff = Inr [(a, p), (b, p)]"
  shows "by_driver_full_results gsum dff = {Inr [(a, p), (b, p)], Inr [(b, p), (a, p)]}"
proof -
  have "{ys. is_sort_desc snd [(a, p), (b, p)] ys} = {[(a, p), (b, p)], [(b, p), (a, p)]}"
    by (auto simp: is_sort_desc_def dest: mset_pair)
  with assms show ?thesis by (simp add: by_driver_full_results_Inr)
qed

subsection \<open>Columns of a loaded table\<close>

lemma loaded_column_points:
  "column_of ''Points'' (loaded parse fmt df)
   = map (\<lambda>r. fillna 0 (to_numeric parse (r ''Points''))) (rows df)"
  unfolding column_of_def
  by (rule nth_equalityI) (simp_all add: loaded_len loaded_points)

lemma loaded_column_driver:
  "has_col df ''Driver'' \<Longrightarrow>
   column_of ''Driver'' (loaded parse fmt df)
   = map (\<lambda>r. Str (str_strip (astype_str fmt (r ''Driver'')))) (rows df)"
  unfolding column_of_def
  by (rule nth_equalityI) (simp_all add: loaded_len loaded_driver)

lemma loaded_keyed_driver:
  "has_col df ''Driver'' \<Longrightarrow>
   map (\<lambda>r. (key1 ''Driver'' r, r ''Points'')) (rows (loaded parse fmt df))
   = map (\<lambda>r. (Some (Str (str_strip (astype_str fmt (r ''Driver'')))),
                fillna 0 (to_numeric parse (r ''Points'')))) (rows df)"
  by (rule nth_equalityI)
     (simp_all add: loaded_len loaded_points loaded_driver key1_def notna_def)


lemma plain_table_loads:
  assumes "columns df = [''Season'', ''RaceNumber'', ''Driver'', ''Constructor'', ''Points'']"
  shows "load_csv parse fmt df = Inr (loaded parse fmt df)"
    and "dff_of no_selection (loaded parse fmt df) = Inr (loaded parse fmt df)"
    and "has_col df ''Driver''"
    and "has_col (loaded parse fmt df) ''Driver''"
    and "has_col (loaded parse fmt df) ''Points''"
    and "has_col (loaded parse fmt df) ''Season''"
    and "has_col (loaded parse fmt df) ''RaceNumber''"
proof -
  from assms have c: "has_col df ''Points''" "has_col df ''Driver''" "has_col df ''Season''"
    "has_col df ''RaceNumber''"
    by (simp_all add: has_col_def)
  from c show "load_csv parse fmt df = Inr (loaded parse fmt df)" by (simp add: load_csv_eq)
  from c show "dff_of no_selection (loaded parse fmt df) = Inr (loaded parse fmt df)"
    by (intro dff_of_no_selection) (simp_all add: loaded_cols)
  from c show "has_col df ''Driver''" "has_col (loaded parse fmt df) ''Driver''"
    "has_col (loaded parse fmt df) ''Points''" "has_col (loaded parse fmt df) ''Season''"
    "has_col (loaded parse fmt df) ''RaceNumber''"
    by (simp_all add: loaded_cols)
qed

subsection \<open>The example tables, loaded\<close>

lemma results_example_points:
  "column_of ''Points'' (loaded parse_example fmt_example results_example)
     = [Num 25, Num 0, Num 0]"
  by (simp add: loaded_column_points results_example_def mk_row_def parse_example_def)

lemma results_example_groups:
  "groupby_sum naive_sum ''Driver'' ''Points'' (loaded parse_example fmt_example results_example)
     = Inr [(Str ''ALO'', 0), (Str ''HAM'', 25), (Str ''nan'', 0)]"
proof -
  let ?t = "loaded parse_example fmt_example results_example"
  have c: "has_col results_example ''Driver''" "has_col ?t ''Driver''" "has_col ?t ''Points''"
    by (simp_all add: loaded_cols, simp_all add: has_col_def results_example_def)
  have d: "dtypes ?t ''Points'' = Float64"
    by (simp add: loaded_points_dtype results_example_dtypes numeric_dtype_def)
  have k: "map (\<lambda>r. (key1 ''Driver'' r, r ''Points'')) (rows ?t)
        = [(Some (Str ''HAM''), Num 25), (Some (Str ''nan''), Num 0), (Some (Str ''ALO''), Num 0)]"
    unfolding loaded_keyed_driver [OF c(1)]
    by (simp add: results_example_def mk_row_def parse_example_def str_strip_def is_space_def)
  have s: "naive_sum [0] = 0" "naive_sum [25] = 25"
    by (simp_all add: naive_sum_def round64_numeral) (simp add: round64_def)
  show ?thesis
    using c by (simp add: groupby_sum_Inr d k group_sum_def List.map_filter_simps
        values_of_def machine_sum_def s)
qed

lemma ties_example_groups:
  "dtypes (loaded parse_example fmt_example ties_example) ''Points'' = Int64"
  "column_of ''Driver'' (loaded parse_example fmt_example ties_example) = [Str ''B'', Str ''A'']"
  "column_of ''Points'' (loaded parse_example fmt_example ties_example) = [Num 10, Num 10]"
  "groupby_sum naive_sum ''Driver'' ''Points'' (loaded parse_example fmt_example ties_example)
     = Inr [(Str ''A'', 10), (Str ''B'', 10)]"
proof -
  let ?t = "loaded parse_example fmt_example ties_example"
  have cs: "columns ties_example = [''Season'', ''RaceNumber'', ''Driver'', ''Constructor'', ''Points'']"
    by (simp add: ties_example_def)
  note c = plain_table_loads [OF cs]
  show d: "dtypes ?t ''Points'' = Int64"
    by (simp add: loaded_points_dtype numeric_dtype_def ties_example_def mk_dtypes_def)
  show "column_of ''Driver'' ?t = [Str ''B'', Str ''A'']"
    by (simp add: loaded_column_driver c(3))
       (simp add: ties_example_def mk_row_def str_strip_def is_space_def)
  show "column_of ''Points'' ?t = [Num 10, Num 10]"
    by (simp add: loaded_column_points ties_example_def mk_row_def)
  have k: "map (\<lambda>r. (key1 ''Driver'' r, r ''Points'')) (rows ?t)
        = [(Some (Str ''B''), Num 10), (Some (Str ''A''), Num 10)]"
    unfolding loaded_keyed_driver [OF c(3)]
    by (simp add: ties_example_def mk_row_def str_strip_def is_space_def)
  show "groupby_sum naive_sum ''Driver'' ''Points'' ?t = Inr [(Str ''A'', 10), (Str ''B'', 10)]"
    using c by (simp add: groupby_sum_Inr d k group_sum_def List.map_filter_simps
        values_of_def machine_sum_def int64_sum_def wrap64_def)
qed


lemma tenths_values:
  "round64 (1 / 10) = 3602879701896397 / 36028797018963968"
  "round64 (11 / 10) = 2476979795053773 / 2251799813685248"
  "naive_sum [3602879701896397 / 36028797018963968] = 3602879701896397 / 36028797018963968"
  "naive_sum [3602879701896397 / 36028797018963968, 2476979795053773 / 2251799813685248]
     = 1351079888211149 / 1125899906842624"
  "naive_sum [3602879701896397 / 36028797018963968, 3602879701896397 / 36028797018963968,
              2476979795053773 / 2251799813685248]
     = 5854679515581645 / 4503599627370496"
  "naive_sum [1351079888211149 / 1125899906842624, 3602879701896397 / 36028797018963968]
     = 2927339757790823 / 2251799813685248"
  by code_simp+

lemma tenths_example_groups:
  "dtypes (loaded parse_example fmt_example tenths_example) ''Points'' = Float64"
  "column_of ''Driver'' (loaded parse_example fmt_example tenths_example)
     = [Str ''A'', Str ''B'', Str ''A'']"
  "column_of ''Points'' (loaded parse_example fmt_example tenths_example)
     = [Num (3602879701896397 / 36028797018963968), Num (3602879701896397 / 36028797018963968),
        Num (2476979795053773 / 2251799813685248)]"
  "groupby_sum naive_sum ''Driver'' ''Points'' (loaded parse_example fmt_example tenths_example)
     = Inr [(Str ''A'', 1351079888211149 / 1125899906842624),
            (Str ''B'', 3602879701896397 / 36028797018963968)]"
proof -
  let ?t = "loaded parse_example fmt_example tenths_example"
  have cs: "columns tenths_example = [''Season'', ''RaceNumber'', ''Driver'', ''Constructor'', ''Points'']"
    by (simp add: tenths_example_def)
  note c = plain_table_loads [OF cs]
  show d: "dtypes ?t ''Points'' = Float64"
    by (simp add: loaded_points_dtype numeric_dtype_def tenths_example_def mk_dtypes_def)
  show "column_of ''Driver'' ?t = [Str ''A'', Str ''B'', Str ''A'']"
    by (simp add: loaded_column_driver c(3))
       (simp add: tenths_example_def mk_row_def str_strip_def is_space_def)
  show "column_of ''Points'' ?t
     = [Num (3602879701896397 / 36028797018963968), Num (3602879701896397 / 36028797018963968),
        Num (2476979795053773 / 2251799813685248)]"
    by (simp add: loaded_column_points tenths_example_def mk_row_def tenths_values)
  have k: "map (\<lambda>r. (key1 ''Driver'' r, r ''Points'')) (rows ?t)
        = [(Some (Str ''A''), Num (3602879701896397 / 36028797018963968)),
           (Some (Str ''B''), Num (3602879701896397 / 36028797018963968)),
           (Some (Str ''A''), Num (2476979795053773 / 2251799813685248))]"
    unfolding loaded_keyed_driver [OF c(3)]
    by (simp add: tenths_example_def mk_row_def str_strip_def is_space_def tenths_values)
  show "groupby_sum naive_sum ''Driver'' ''Points'' ?t
     = Inr [(Str ''A'', 1351079888211149 / 1125899906842624),
            (Str ''B'', 3602879701896397 / 36028797018963968)]"
    using c by (simp add: groupby_sum_Inr d k group_sum_def List.map_filter_simps
        values_of_def machine_sum_def tenths_values)
qed

text \<open>
  Claim C8 says that the per-driver sums add up to the sum of the \<^verbatim>\<open>Points\<close> column. In
  the example the column is float64 and holds 0.1 for A, 0.1 for B and 1.1 for A. The
  sum of A is the float64 next above 1.2, the per-driver sums add up to
  1.3000000000000003 when the machine adds them and to a little less exactly, and the
  sum of the column is 1.3, less than both.
\<close>

theorem by_driver_sums_counterexample:
  "load_csv parse_example fmt_example tenths_example
     = Inr (loaded parse_example fmt_example tenths_example) \<and>
   dff_of no_selection (loaded parse_example fmt_example tenths_example)
     = Inr (loaded parse_example fmt_example tenths_example) \<and>
   dtypes (loaded parse_example fmt_example tenths_example) ''Points'' = Float64 \<and>
   column_of ''Driver'' (loaded parse_example fmt_example tenths_example)
     = [Str ''A'', Str ''B'', Str ''A''] \<and>
   column_of ''Points'' (loaded parse_example fmt_example tenths_example)
     = [Num (round64 (1 / 10)), Num (round64 (1 / 10)), Num (round64 (11 / 10))] \<and>
   by_driver_full_results naive_sum (loaded parse_example fmt_example tenths_example)
     = {Inr [(Str ''A'', 1351079888211149 / 1125899906842624),
             (Str ''B'', 3602879701896397 / 36028797018963968)]} \<and>
   naive_sum [1351079888211149 / 1125899906842624, 3602879701896397 / 36028797018963968]
     = 2927339757790823 / 2251799813685248 \<and>
   sum_list (map snd [(Str ''A'', 1351079888211149 / 1125899906842624 :: rat),
                      (Str ''B'', 3602879701896397 / 36028797018963968)])
     = 46837436124653165 / 36028797018963968 \<and>
   column_sum naive_sum ''Points'' (loaded parse_example fmt_example tenths_example)
     = 5854679515581645 / 4503599627370496 \<and>
   (5854679515581645 / 4503599627370496 :: rat) < 46837436124653165 / 36028797018963968 \<and>
   (5854679515581645 / 4503599627370496 :: rat) < 2927339757790823 / 2251799813685248"
proof -
  let ?t = "loaded parse_example fmt_example tenths_example"
  have cs: "columns tenths_example = [''Season'', ''RaceNumber'', ''Driver'', ''Constructor'', ''Points'']"
    by (simp add: tenths_example_def)
  note c = plain_table_loads [OF cs]
  have r: "by_driver_full_results naive_sum ?t
     = {Inr [(Str ''A'', 1351079888211149 / 1125899906842624),
             (Str ''B'', 3602879701896397 / 36028797018963968)]}"
    by (subst by_driver_full_results_unique [OF tenths_example_groups(4)]) simp_all
  have s: "column_sum naive_sum ''Points'' ?t = 5854679515581645 / 4503599627370496"
    by (simp add: column_sum_def tenths_example_groups machine_sum_def values_of_def
        List.map_filter_simps tenths_values)
  from c(1,2) tenths_example_groups(1-3) r s tenths_values(6) show ?thesis
    by (simp add: tenths_values(1,2))
qed

text \<open>
  Claim C8, amended. For a loaded table with a \<^verbatim>\<open>Driver\<close> column and any selection,
  the points-by-driver aggregate over all groups (before \<^verbatim>\<open>head(20)\<close>) exists, and:
  if \<^verbatim>\<open>Points\<close> is an int64 column, the int64 sum of the per-driver sums is the sum
  of the \<^verbatim>\<open>Points\<close> column of the filtered table (both modulo \<^verbatim>\<open>2^64\<close>); if the points
  of the filtered table are whole (int64) or whole or half (float64), none is
  negative, and their total is below \<^verbatim>\<open>2^63\<close> (int64) or \<^verbatim>\<open>2^52\<close> (float64, with sum
  routines that are exact on such numbers), the per-driver sums add up to the sum of
  the column, and both are the exact sum of the points.
\<close>

theorem by_driver_sum_is_total:
  assumes "load_csv parse fmt raw = Inr t" and "dff_of sel t = Inr dff"
    and "has_col raw ''Driver''"
  shows "by_driver_full_results gsum dff \<noteq> {} \<and>
         (\<forall>res \<in> by_driver_full_results gsum dff. \<exists>full. res = Inr full \<and>
            (dtypes dff ''Points'' = Int64 \<longrightarrow>
               int64_sum (map snd full) = column_sum ssum ''Points'' dff) \<and>
            (points_in_range (dtypes dff ''Points'') (values_of (column_of ''Points'' dff)) \<and>
             (dtypes dff ''Points'' \<noteq> Int64 \<longrightarrow> exact_sums gsum \<and> exact_sums ssum) \<longrightarrow>
               sum_list (map snd full) = sum_list (values_of (column_of ''Points'' dff)) \<and>
               machine_sum ssum (dtypes dff ''Points'') (map snd full)
                 = column_sum ssum ''Points'' dff \<and>
               column_sum ssum ''Points'' dff
                 = sum_list (values_of (column_of ''Points'' dff))))"
proof -
  from assms(1) have t: "t = loaded parse fmt raw" by (simp add: load_csv_Inr)
  from assms(2) have cols: "columns dff = columns t" and sub: "set (rows dff) \<subseteq> set (rows t)"
    by (simp_all add: dff_of_Inr)
  from assms(3) have "has_col t ''Driver''" "has_col t ''Points''"
    unfolding t by (simp_all add: loaded_cols)
  with cols have hc: "has_col dff ''Driver''" "has_col dff ''Points''"
    by (simp_all add: has_col_def)
  define dt where "dt = dtypes dff ''Points''"
  define kvs where "kvs = map (\<lambda>r. (key1 ''Driver'' r, r ''Points'')) (rows dff)"
  define vals where "vals = values_of (column_of ''Points'' dff)"
  define grouped where "grouped = group_sum cell_rank (machine_sum gsum dt) kvs"
  have keyed: "filter (\<lambda>kv. fst kv \<noteq> None) kvs = kvs"
  proof -
    have "fst kv \<noteq> None" if "kv \<in> set kvs" for kv
    proof -
      from that obtain r where r: "r \<in> set (rows dff)" and kv: "kv = (key1 ''Driver'' r, r ''Points'')"
        by (auto simp: kvs_def)
      from r sub have "r \<in> set (rows (loaded parse fmt raw))" unfolding t by blast
      with assms(3) obtain s where "r ''Driver'' = Str s"
        using loaded_text_rows by blast
      with kv show ?thesis by (simp add: key1_def notna_def)
    qed
    then show ?thesis by simp
  qed
  have v: "values_of (map snd kvs) = vals"
    by (simp add: kvs_def vals_def column_of_def comp_def)
  have g: "groupby_sum gsum ''Driver'' ''Points'' dff = Inr grouped"
    using hc by (simp add: groupby_sum_Inr grouped_def kvs_def dt_def)
  then have rs: "by_driver_full_results gsum dff = Inr ` {ys. is_sort_desc snd grouped ys}"
    by (rule by_driver_full_results_Inr)
  have ne: "by_driver_full_results gsum dff \<noteq> {}"
    unfolding rs using is_sort_desc_exists [of snd grouped] by blast
  have cs: "column_sum ssum ''Points'' dff = machine_sum ssum dt vals"
    by (simp add: column_sum_def dt_def vals_def)
  have a: "int64_sum (map snd full) = column_sum ssum ''Points'' dff"
    if m: "mset full = mset grouped" and i: "dt = Int64" for full
  proof -
    have "sum_list (map (\<lambda>g. \<lfloor>snd g\<rfloor>) full) = sum_list (map (\<lambda>g. \<lfloor>snd g\<rfloor>) grouped)"
      using m by (rule sum_list_mset_cong)
    then have "int64_sum (map snd full) = int64_sum (map snd grouped)"
      by (simp add: int64_sum_def comp_def)
    also have "machine_sum gsum dt = int64_sum" using i by (simp add: machine_sum_def fun_eq_iff)
    then have "int64_sum (map snd grouped) = int64_sum (values_of (map snd kvs))"
      unfolding grouped_def using group_sum_int64_total [of cell_rank kvs]
      by (simp only: keyed)
    finally show ?thesis using i by (simp add: cs v machine_sum_def)
  qed
  have b: "sum_list (map snd full) = sum_list vals \<and>
           machine_sum ssum dt (map snd full) = column_sum ssum ''Points'' dff \<and>
           column_sum ssum ''Points'' dff = sum_list vals"
    if m: "mset full = mset grouped" and r: "points_in_range dt vals"
      and e: "dt \<noteq> Int64 \<longrightarrow> exact_sums gsum \<and> exact_sums ssum" for full
  proof -
    from r have gr: "\<forall>x \<in> set vals. in_grid dt x" and lim: "sum_list vals < sum_limit dt"
      by (simp_all add: points_in_range_def list_all_iff)
    from e r have ge: "grouped = group_sum cell_rank sum_list kvs"
      unfolding grouped_def by (intro group_sum_exact) (simp_all add: v)
    have "sum_list (map snd full) = sum_list (map snd grouped)"
      using m by (rule sum_list_mset_cong)
    also have "\<dots> = sum_list vals"
      unfolding ge group_sum_exact_total keyed v ..
    finally have s1: "sum_list (map snd full) = sum_list vals" .
    from m have "set full = set grouped" by (rule mset_eq_setD)
    then have "\<forall>x \<in> set (map snd full). in_grid dt x"
      unfolding ge using group_sum_exact_in_grid [of kvs dt _ cell_rank] gr by (simp add: v)
    with e have "machine_sum ssum dt (map snd full) = sum_list (map snd full)"
      using lim by (intro machine_sum_exact) (simp_all add: s1)
    moreover from e gr lim have "machine_sum ssum dt vals = sum_list vals"
      by (intro machine_sum_exact) simp_all
    ultimately show ?thesis using s1 by (simp add: cs)
  qed
  have "\<exists>full. res = Inr full \<and>
            (dt = Int64 \<longrightarrow> int64_sum (map snd full) = column_sum ssum ''Points'' dff) \<and>
            (points_in_range dt vals \<and> (dt \<noteq> Int64 \<longrightarrow> exact_sums gsum \<and> exact_sums ssum) \<longrightarrow>
               sum_list (map snd full) = sum_list vals \<and>
               machine_sum ssum dt (map snd full) = column_sum ssum ''Points'' dff \<and>
               column_sum ssum ''Points'' dff = sum_list vals)"
    if "res \<in> by_driver_full_results gsum dff" for res
  proof -
    from that obtain full where res: "res = Inr full" and "is_sort_desc snd grouped full"
      unfolding rs by blast
    then have m: "mset full = mset grouped" by (simp add: is_sort_desc_def)
    from a [OF m] b [OF m] res show ?thesis by blast
  qed
  with ne show ?thesis unfolding dt_def vals_def by blast
qed

text \<open>
  On the example with ten points for each of two drivers, an int64 column, the sums
  add up to 20. On the example table the points are float64: 25 for HAM, none for the
  two others; adding from left to right is exact on such numbers.
\<close>

theorem by_driver_sum_is_total_witness:
  "load_csv parse_example fmt_example ties_example
     = Inr (loaded parse_example fmt_example ties_example) \<and>
   dff_of no_selection (loaded parse_example fmt_example ties_example)
     = Inr (loaded parse_example fmt_example ties_example) \<and>
   has_col ties_example ''Driver'' \<and>
   dtypes (loaded parse_example fmt_example ties_example) ''Points'' = Int64 \<and>
   Inr [(Str ''B'', 10), (Str ''A'', 10)]
     \<in> by_driver_full_results naive_sum (loaded parse_example fmt_example ties_example) \<and>
   int64_sum (map snd [(Str ''B'', 10 :: rat), (Str ''A'', 10)]) = 20 \<and>
   column_sum naive_sum ''Points'' (loaded parse_example fmt_example ties_example) = 20 \<and>
   load_csv parse_example fmt_example results_example
     = Inr (loaded parse_example fmt_example results_example) \<and>
   dff_of no_selection (loaded parse_example fmt_example results_example)
     = Inr (loaded parse_example fmt_example results_example) \<and>
   has_col results_example ''Driver'' \<and>
   dtypes (loaded parse_example fmt_example results_example) ''Points'' = Float64 \<and>
   points_in_range Float64
     (values_of (column_of ''Points'' (loaded parse_example fmt_example results_example))) \<and>
   exact_sums naive_sum \<and>
   Inr [(Str ''HAM'', 25), (Str ''nan'', 0), (Str ''ALO'', 0)]
     \<in> by_driver_full_results naive_sum (loaded parse_example fmt_example results_example) \<and>
   sum_list (map snd [(Str ''HAM'', 25 :: rat), (Str ''nan'', 0), (Str ''ALO'', 0)]) = 25 \<and>
   column_sum naive_sum ''Points'' (loaded parse_example fmt_example results_example) = 25"
proof -
  let ?t = "loaded parse_example fmt_example ties_example"
  let ?u = "loaded parse_example fmt_example results_example"
  have cs: "columns ties_example = [''Season'', ''RaceNumber'', ''Driver'', ''Constructor'', ''Points'']"
    by (simp add: ties_example_def)
  note c = plain_table_loads [OF cs]
  have m: "Inr [(Str ''B'', 10), (Str ''A'', 10)] \<in> by_driver_full_results naive_sum ?t"
    by (simp add: by_driver_full_results_tie [OF ties_example_groups(4)])
  have i: "int64_sum (map snd [(Str ''B'', 10 :: rat), (Str ''A'', 10)]) = 20"
    by (simp add: int64_sum_def wrap64_def)
  from by_driver_sum_is_total [OF c(1) [of parse_example fmt_example] c(2) c(3),
      where gsum = naive_sum and ssum = naive_sum] m ties_example_groups(1) i
  have a: "column_sum naive_sum ''Points'' ?t = 20" by fastforce
  have cu: "has_col ?u ''Season''" "has_col ?u ''RaceNumber''" "has_col ?u ''IsDNF''"
    "has_col ?u ''Points''"
    by (simp_all add: loaded_cols, simp_all add: has_col_def results_example_def)
  have d: "dff_of no_selection ?u = Inr ?u" using cu by (rule dff_of_no_selection)
  have h: "has_col results_example ''Driver''" by (simp add: has_col_def results_example_def)
  have f: "dtypes ?u ''Points'' = Float64"
    by (simp add: loaded_points_dtype results_example_dtypes numeric_dtype_def)
  have p: "points_in_range Float64 (values_of (column_of ''Points'' ?u))"
    by (simp add: results_example_points values_of_def List.map_filter_simps
        points_in_range_def in_grid_def sum_limit_def)
  have n: "Inr [(Str ''HAM'', 25), (Str ''nan'', 0), (Str ''ALO'', 0)]
             \<in> by_driver_full_results naive_sum ?u"
    by (simp add: by_driver_full_results_Inr [OF results_example_groups] is_sort_desc_def)
  have s: "sum_list (map snd [(Str ''HAM'', 25 :: rat), (Str ''nan'', 0), (Str ''ALO'', 0)]) = 25"
    by simp
  from by_driver_sum_is_total [OF results_example_loads d h,
      where gsum = naive_sum and ssum = naive_sum]
    n f p naive_sum_exact s
  have b: "column_sum naive_sum ''Points'' ?u = 25" by fastforce
  from c(1-3) ties_example_groups(1) m i a results_example_loads d h f p naive_sum_exact n s b
  show ?thesis by blast
qed

text \<open>
  Claim C10. In a loaded table that has the column \<^verbatim>\<open>Driver\<close> (or \<^verbatim>\<open>Constructor\<close>),
  every value of the column is a text, the source value printed by \<^verbatim>\<open>astype(str)\<close>
  and stripped of white space at both ends; a missing source value has become the
  text ``nan''. So no value is missing, and grouping the table, or a filtered view of
  it, by that column drops no row: the value of every row is among the group keys.
\<close>

theorem text_columns_never_missing:
  assumes "load_csv parse fmt df = Inr t" and "i < length (rows t)"
    and "c = ''Driver'' \<or> c = ''Constructor''" and "has_col t c"
  shows "(rows t ! i) c = Str (str_strip (astype_str fmt ((rows df ! i) c))) \<and>
         notna ((rows t ! i) c) \<and>
         ((rows df ! i) c = NaN \<longrightarrow> (rows t ! i) c = Str ''nan'') \<and>
         (str_strip (astype_str fmt ((rows df ! i) c)) = [] \<or>
          (\<not> is_space (hd (str_strip (astype_str fmt ((rows df ! i) c)))) \<and>
           \<not> is_space (last (str_strip (astype_str fmt ((rows df ! i) c)))))) \<and>
         (\<forall>g. groupby_sum gsum c ''Points'' t = Inr g \<longrightarrow> (rows t ! i) c \<in> fst ` set g) \<and>
         (\<forall>sel dff g r. dff_of sel t = Inr dff \<and> r \<in> set (rows dff) \<and>
             groupby_sum gsum c ''Points'' dff = Inr g \<longrightarrow> notna (r c) \<and> r c \<in> fst ` set g)"
proof -
  from assms(1) have t: "t = loaded parse fmt df" by (simp add: load_csv_Inr)
  with assms(2) have i: "i < length (rows df)" by (simp add: loaded_len)
  from assms(3,4) have hc: "has_col df c" unfolding t by (auto simp: loaded_cols)
  have v: "(rows t ! i) c = Str (str_strip (astype_str fmt ((rows df ! i) c)))"
    unfolding t using i hc assms(3) by (auto simp: loaded_driver loaded_constructor)
  have n: "(rows df ! i) c = NaN \<longrightarrow> (rows t ! i) c = Str ''nan''"
    unfolding v by (simp add: str_strip_def is_space_def)
  have texts: "notna (r c)" if "r \<in> set (rows t)" for r
    using loaded_text_rows [OF hc assms(3)] that unfolding t notna_def by fastforce
  have keys: "r c \<in> fst ` set g"
    if "groupby_sum gsum c ''Points'' d = Inr g" "r \<in> set (rows d)" "notna (r c)" for gsum d g r
    using that by (auto simp: groupby_sum_keys)
  have a: "\<forall>g. groupby_sum gsum c ''Points'' t = Inr g \<longrightarrow> (rows t ! i) c \<in> fst ` set g"
    using keys texts assms(2) by (metis nth_mem)
  have b: "notna (r c) \<and> r c \<in> fst ` set g"
    if "dff_of sel t = Inr dff" "r \<in> set (rows dff)" "groupby_sum gsum c ''Points'' dff = Inr g"
    for gsum sel dff g r
  proof -
    from that(1,2) have "r \<in> set (rows t)" using dff_of_Inr by blast
    then have "notna (r c)" by (rule texts)
    with keys that show ?thesis by blast
  qed
  from v n a b str_strip_trimmed show ?thesis by (simp add: notna_def) blast
qed

text \<open>
  The second row of the example has no driver: the loaded table has the text ``nan''
  there, and the group of that name exists.
\<close>

theorem text_columns_never_missing_witness:
  "load_csv parse_example fmt_example results_example
     = Inr (loaded parse_example fmt_example results_example) \<and>
   1 < length (rows (loaded parse_example fmt_example results_example)) \<and>
   has_col (loaded parse_example fmt_example results_example) ''Driver'' \<and>
   (rows results_example ! 1) ''Driver'' = NaN \<and>
   (rows (loaded parse_example fmt_example results_example) ! 1) ''Driver'' = Str ''nan'' \<and>
   (rows (loaded parse_example fmt_example results_example) ! 0) ''Driver'' = Str ''HAM'' \<and>
   groupby_sum naive_sum ''Driver'' ''Points'' (loaded parse_example fmt_example results_example)
     = Inr [(Str ''ALO'', 0), (Str ''HAM'', 25), (Str ''nan'', 0)]"
proof -
  let ?t = "loaded parse_example fmt_example results_example"
  have n: "length (rows ?t) = 3" by (simp add: loaded_len results_example_rows)
  then have n0: "0 < length (rows ?t)" and n1: "1 < length (rows ?t)" by simp_all
  have c: "has_col ?t ''Driver''" "has_col ?t ''Points''"
    by (simp_all add: loaded_cols, simp_all add: has_col_def results_example_def)
  have s: "(rows results_example ! 1) ''Driver'' = NaN"
    "(rows results_example ! 0) ''Driver'' = Str '' HAM ''"
    by (simp_all add: results_example_def mk_row_def)
  have dc: "''Driver'' = ''Driver'' \<or> ''Driver'' = ''Constructor''" by simp
  from text_columns_never_missing [OF results_example_loads n1 dc c(1)] s(1)
  have a: "(rows ?t ! 1) ''Driver'' = Str ''nan''" by blast
  from text_columns_never_missing [OF results_example_loads n0 dc c(1)]
  have "(rows ?t ! 0) ''Driver''
          = Str (str_strip (astype_str fmt_example ((rows results_example ! 0) ''Driver'')))"
    by blast
  then have b: "(rows ?t ! 0) ''Driver'' = Str ''HAM''"
    by (simp add: s(2) str_strip_def is_space_def)
  note g = results_example_groups
  from results_example_loads n1 c(1) s(1) a b g show ?thesis by simp
qed

subsection \<open>The ranking by points\<close>




subsection \<open>The cumulative standings\<close>
















end
